theory Spec2Isabelle
  imports Main "HOL-Library.Product_Lexorder"
begin

section \<open>The store: activities, patients, locations\<close>

text \<open>
  The workflows of \<^verbatim>\<open>nh_clinical/operations.py\<close> are methods of ORM models. They
  read and write rows of the activity, patient, location and point-of-service tables and
  call the activity engine. The embedding makes that store explicit and passes it through
  every operation.

  Record ids count from 1, as database ids do, so an id is never falsy; Python's
  \<^verbatim>\<open>False\<close> for "no record" is \<open>None\<close> (for a typed reference) or \<open>Unset\<close>
  (for a field value).
\<close>

type_synonym id = nat

text \<open>
  Modelled from the spec: the states of an activity (section 3), declared by the engine:
  draft, scheduled, started, completed, cancelled.
\<close>

datatype state = Draft | Scheduled | Started | Completed | Cancelled

text \<open>
  The \<^verbatim>\<open>data_model\<close> tag of an activity: the five models of
  \<^verbatim>\<open>operations.py\<close> (\<^verbatim>\<open>_name\<close>) and the spell.
\<close>

datatype data_model = Patient_move | Swap_beds | Placement | Discharge | Admission | Spell

text \<open>The \<^verbatim>\<open>usage\<close> of a location: \<^verbatim>\<open>'bed'\<close>, \<^verbatim>\<open>'ward'\<close>, or any other.\<close>

datatype usage = Bed | Ward | Other_usage

text \<open>
  The columns of the models (\<^verbatim>\<open>_columns\<close>) and of the spell, and the key
  \<^verbatim>\<open>parent_id\<close> that \<^verbatim>\<open>nh_clinical_patient_move.submit\<close> looks for.
\<close>

datatype field =
    Parent_id | Patient_id | Location_id | From_location_id | Move_datetime | Reason
  | Location1_id | Location2_id | Suggested_location_id | Discharge_date
  | Pos_id | Start_date | Code | Ref_doctor_ids | Con_doctor_ids

text \<open>
  A field value as the ORM hands it to Python: \<open>Unset\<close> is the \<^verbatim>\<open>False\<close> of an
  empty field, \<open>Ref\<close> a many2one reference, \<open>Refs\<close> a many2many one.
\<close>

datatype val = Unset | Ref id | Datetime nat | Text string | Refs "id list"

fun truthy :: "val \<Rightarrow> bool" where
  "truthy Unset = False"
| "truthy (Ref i) = True"
| "truthy (Datetime d) = True"
| "truthy (Text t) = (t \<noteq> [])"
| "truthy (Refs is) = (is \<noteq> [])"

text \<open>
  An activity with the payload it owns. \<open>data_ref a f\<close> is
  \<^verbatim>\<open>activity.data_ref.f\<close>; the activity's own mirror fields
  \<^verbatim>\<open>activity.patient_id\<close> and \<^verbatim>\<open>activity.location_id\<close> are read from the
  payload as well.
\<close>

record activity =
  data_model :: data_model
  state :: state
  parent_id :: "id option"
  creator_id :: "id option"
  sequence :: nat
  date_terminated :: "nat option"
  data_ref :: "field \<Rightarrow> val"

text \<open>
  Modelled from the spec: the rows of the patient registry, the location directory and
  the points of service, with the fields \<^verbatim>\<open>operations.py\<close> reads or writes
  (section 6: \<^verbatim>\<open>usage\<close>, \<^verbatim>\<open>is_available\<close>, \<^verbatim>\<open>patient_ids\<close>,
  \<^verbatim>\<open>parent_id\<close>; also \<^verbatim>\<open>name\<close>, \<^verbatim>\<open>code\<close>, the patient's
  \<^verbatim>\<open>current_location_id\<close> and the point of service's \<^verbatim>\<open>location_id\<close>).
\<close>

record patient =
  current_location_id :: val

record location =
  location_name :: string
  location_code :: string
  usage :: usage
  is_available :: bool
  location_parent_id :: "id option"
  patient_ids :: "id list"

record pos =
  pos_location_id :: val

text \<open>
  The calls a workflow makes, in the order it makes them. The trace is history only: no
  operation reads it.
\<close>

datatype event =
    Ev_create id
  | Ev_submit id
  | Ev_start id
  | Ev_complete id
  | Ev_cancel id
  | Ev_write_activity id
  | Ev_write_data id field
  | Ev_write_patient id
  | Ev_trigger_policy id val

record store =
  activities :: "activity list"
  patients :: "patient list"
  locations :: "location list"
  poss :: "pos list"
  now :: nat
  trace :: "event list"

datatype error =
    Missing_record
  | Attribute_error
  | Index_error
  | Recursion_limit
  | Required_field field
  | Invalid_transition
  | No_destination_location
  | No_patient_in_location string
  | Different_wards
  | Placement_without_location
  | No_open_spell val
  | Location_not_available val
  | Patient_required_for_discharge
  | Patient_required_for_admission
  | Already_admitted val
  | Spell_not_found val
  | Already_discharged val
  | Discharge_not_found val
  | Active_admission_exists val
  | Admission_not_found val

text \<open>
  An operation either returns a value or raises. Both outcomes carry the store as the
  operation left it: for \<open>Raise\<close> that is the store at the moment of the
  \<^verbatim>\<open>raise\<close>, with every write made before it.
\<close>

datatype 'a res = Raise error store | Return 'a store

definition store_of :: "'a res \<Rightarrow> store" where
  "store_of r = (case r of Raise e s \<Rightarrow> s | Return x s \<Rightarrow> s)"

datatype exception_flag = No_check | Raise_if_found | Raise_if_not_found

subsection \<open>Rows by id\<close>

definition browse :: "'a list \<Rightarrow> id \<Rightarrow> 'a option" where
  "browse xs i = (if 0 < i \<and> i \<le> length xs then Some (xs ! (i - 1)) else None)"

definition write_rec :: "'a list \<Rightarrow> id \<Rightarrow> ('a \<Rightarrow> 'a) \<Rightarrow> 'a list" where
  "write_rec xs i f = (if 0 < i \<and> i \<le> length xs then xs[i - 1 := f (xs ! (i - 1))] else xs)"

definition search :: "('a \<Rightarrow> bool) \<Rightarrow> 'a list \<Rightarrow> id list" where
  "search P xs = map fst (filter (\<lambda>(i, x). P x) (enumerate 1 xs))"

text \<open>\<^verbatim>\<open>ids[0] if ids else False\<close>\<close>

definition first_or_false :: "id list \<Rightarrow> id option" where
  "first_or_false ids = (case ids of [] \<Rightarrow> None | i # _ \<Rightarrow> Some i)"

text \<open>A dict of field values; \<open>map_of\<close> is the lookup, so a key put in front overrides.\<close>

type_synonym vals = "(field \<times> val) list"

definition write_vals :: "(field \<Rightarrow> val) \<Rightarrow> vals \<Rightarrow> (field \<Rightarrow> val)" where
  "write_vals d vs = (\<lambda>f. case map_of vs f of None \<Rightarrow> d f | Some v \<Rightarrow> v)"

text \<open>Live reads of an activity row; a field of a missing row reads as unset.\<close>

definition data_of :: "store \<Rightarrow> id \<Rightarrow> field \<Rightarrow> val" where
  "data_of s aid f = (case browse (activities s) aid of None \<Rightarrow> Unset | Some a \<Rightarrow> data_ref a f)"

definition parent_of :: "store \<Rightarrow> id \<Rightarrow> id option" where
  "parent_of s aid = (case browse (activities s) aid of None \<Rightarrow> None | Some a \<Rightarrow> parent_id a)"

definition state_of :: "store \<Rightarrow> id \<Rightarrow> state option" where
  "state_of s aid = map_option state (browse (activities s) aid)"

definition model_of :: "store \<Rightarrow> id \<Rightarrow> data_model option" where
  "model_of s aid = map_option data_model (browse (activities s) aid)"

definition creator_of :: "store \<Rightarrow> id \<Rightarrow> id option" where
  "creator_of s aid = (case browse (activities s) aid of None \<Rightarrow> None | Some a \<Rightarrow> creator_id a)"

definition sequence_of :: "store \<Rightarrow> id \<Rightarrow> nat" where
  "sequence_of s aid = (case browse (activities s) aid of None \<Rightarrow> 0 | Some a \<Rightarrow> sequence a)"

definition terminated_of :: "store \<Rightarrow> id \<Rightarrow> nat option" where
  "terminated_of s aid = (case browse (activities s) aid of None \<Rightarrow> None | Some a \<Rightarrow> date_terminated a)"

text \<open>\<^verbatim>\<open>patient.current_location_id\<close>\<close>

definition current_location :: "store \<Rightarrow> id \<Rightarrow> val" where
  "current_location s p = (case browse (patients s) p of None \<Rightarrow> Unset | Some r \<Rightarrow> current_location_id r)"

definition terminal :: "state \<Rightarrow> bool" where
  "terminal st = (st = Completed \<or> st = Cancelled)"

section \<open>The activity engine\<close>

text \<open>
  The engine (\<^verbatim>\<open>nh.activity\<close>, \<^verbatim>\<open>nh.activity.data\<close>), the spell registry and the
  location directory are collaborators of \<^verbatim>\<open>operations.py\<close>; their code lives in
  other modules. The definitions of this section give them the behaviour the
  specification states.
\<close>

text \<open>
  Modelled from the spec: the \<^verbatim>\<open>sequence\<close> number the engine gives at a
  transition, above every number in use.
\<close>

definition next_sequence :: "store \<Rightarrow> nat" where
  "next_sequence s = Suc (foldr max (map sequence (activities s)) 0)"

text \<open>
  Modelled from the spec: \<^verbatim>\<open>activity_pool.write(cr, uid, id, vals)\<close>, the plain
  write of fields of an activity row. Writing through an empty reference
  (\<^verbatim>\<open>False\<close>) touches no row.
\<close>

definition write_activity :: "store \<Rightarrow> id option \<Rightarrow> (activity \<Rightarrow> activity) \<Rightarrow> bool res" where
  "write_activity s i f =
     (case i of
        None \<Rightarrow> Return True s
      | Some aid \<Rightarrow>
          (case browse (activities s) aid of
             None \<Rightarrow> Raise Missing_record s
           | Some a \<Rightarrow>
               Return True (s\<lparr>activities := write_rec (activities s) aid f,
                              trace := trace s @ [Ev_write_activity aid]\<rparr>)))"

text \<open>\<^verbatim>\<open>self.write(cr, uid, activity.data_ref.id, {f: v})\<close> on the payload of a browsed activity.\<close>

definition write_data :: "store \<Rightarrow> id \<Rightarrow> field \<Rightarrow> val \<Rightarrow> store" where
  "write_data s aid f v =
     s\<lparr>activities := write_rec (activities s) aid (\<lambda>a. a\<lparr>data_ref := (data_ref a)(f := v)\<rparr>),
       trace := trace s @ [Ev_write_data aid f]\<rparr>"

text \<open>\<^verbatim>\<open>patient_pool.write(cr, uid, patient_id, {'current_location_id': v})\<close>\<close>

definition write_patient :: "store \<Rightarrow> val \<Rightarrow> val \<Rightarrow> bool res" where
  "write_patient s p v =
     (case p of
        Ref pid \<Rightarrow>
          (case browse (patients s) pid of
             None \<Rightarrow> Raise Missing_record s
           | Some _ \<Rightarrow>
               Return True (s\<lparr>patients := write_rec (patients s) pid (\<lambda>r. r\<lparr>current_location_id := v\<rparr>),
                              trace := trace s @ [Ev_write_patient pid]\<rparr>))
      | _ \<Rightarrow> Return True s)"

text \<open>
  Modelled from the spec: the engine's \<^verbatim>\<open>create_activity(parent/creator refs, payload)
  \<rightarrow> activity_id\<close> (section 4.1). The new activity starts in the first state of the
  lifecycle and owns the payload.
\<close>

definition new_row :: "data_model \<Rightarrow> id option \<times> id option \<Rightarrow> vals \<Rightarrow> activity" where
  "new_row m vals_activity vals_data =
     \<lparr>data_model = m, state = Draft, parent_id = fst vals_activity,
      creator_id = snd vals_activity, sequence = 0, date_terminated = None,
      data_ref = write_vals (\<lambda>f. Unset) vals_data\<rparr>"

text \<open>Modelled from the spec: the store after \<^verbatim>\<open>create_activity\<close>.\<close>

definition created :: "data_model \<Rightarrow> store \<Rightarrow> id option \<times> id option \<Rightarrow> vals \<Rightarrow> store" where
  "created m s vals_activity vals_data =
     s\<lparr>activities := activities s @ [new_row m vals_activity vals_data],
       trace := trace s @ [Ev_create (Suc (length (activities s)))]\<rparr>"

text \<open>
  Modelled from the spec: \<^verbatim>\<open>create_activity\<close> returns the id of the new
  activity, the next free one.
\<close>

definition create_activity ::
  "data_model \<Rightarrow> store \<Rightarrow> id option \<times> id option \<Rightarrow> vals \<Rightarrow> id res" where
  "create_activity m s vals_activity vals_data =
     Return (Suc (length (activities s))) (created m s vals_activity vals_data)"

text \<open>
  Modelled from the spec: the engine's base \<^verbatim>\<open>submit(activity_id, field_updates)\<close>
  (section 4.1), which writes the updates to the payload.
\<close>

definition submitted :: "store \<Rightarrow> id \<Rightarrow> vals \<Rightarrow> store" where
  "submitted s aid vs =
     s\<lparr>activities := write_rec (activities s) aid (\<lambda>a. a\<lparr>data_ref := write_vals (data_ref a) vs\<rparr>),
       trace := trace s @ [Ev_submit aid]\<rparr>"

text \<open>
  Modelled from the spec: the base \<^verbatim>\<open>submit\<close> needs the activity to exist.
\<close>

definition base_submit :: "store \<Rightarrow> id \<Rightarrow> vals \<Rightarrow> bool res" where
  "base_submit s aid vs =
     (case browse (activities s) aid of
        None \<Rightarrow> Raise Missing_record s
      | Some a \<Rightarrow> Return True (submitted s aid vs))"

text \<open>
  Modelled from the spec: the engine's base transitions (sections 3 and 4.1). The states
  are draft, scheduled, started, completed, cancelled; a transition checks that it is
  valid and stamps the activity: with the next \<^verbatim>\<open>sequence\<close> number, so that
  descending sequence is most recent first (section 4.2 reads "most recently completed"
  off that order), and with the termination date when the new state is terminal.
  \<^verbatim>\<open>complete\<close> is the one terminal transition of an open activity. \<^verbatim>\<open>cancel\<close> is also
  what property P5 applies to a completed discharge, so it is refused only for an
  activity that is cancelled already.
\<close>

definition stamp :: "store \<Rightarrow> state \<Rightarrow> activity \<Rightarrow> activity" where
  "stamp s st a =
     a\<lparr>state := st, sequence := next_sequence s,
       date_terminated := (if terminal st then Some (now s) else date_terminated a)\<rparr>"

text \<open>Modelled from the spec: the store after a base transition of an activity.\<close>

definition transitioned :: "store \<Rightarrow> id \<Rightarrow> state \<Rightarrow> event \<Rightarrow> store" where
  "transitioned s aid st ev =
     s\<lparr>activities := write_rec (activities s) aid (stamp s st), trace := trace s @ [ev]\<rparr>"

text \<open>
  Modelled from the spec: the base \<^verbatim>\<open>start\<close>, valid for an activity that is draft
  or scheduled.
\<close>

definition base_start :: "store \<Rightarrow> id \<Rightarrow> bool res" where
  "base_start s aid =
     (case browse (activities s) aid of
        None \<Rightarrow> Raise Missing_record s
      | Some a \<Rightarrow>
          if state a = Draft \<or> state a = Scheduled
          then Return True (transitioned s aid Started (Ev_start aid))
          else Raise Invalid_transition s)"

text \<open>
  Modelled from the spec: the base \<^verbatim>\<open>complete\<close>, valid for an activity that is not
  terminal.
\<close>

definition base_complete :: "store \<Rightarrow> id \<Rightarrow> bool res" where
  "base_complete s aid =
     (case browse (activities s) aid of
        None \<Rightarrow> Raise Missing_record s
      | Some a \<Rightarrow>
          if terminal (state a) then Raise Invalid_transition s
          else Return True (transitioned s aid Completed (Ev_complete aid)))"

text \<open>
  Modelled from the spec: the base \<^verbatim>\<open>cancel\<close>, valid for an activity that is not
  cancelled.
\<close>

definition base_cancel :: "store \<Rightarrow> id \<Rightarrow> bool res" where
  "base_cancel s aid =
     (case browse (activities s) aid of
        None \<Rightarrow> Raise Missing_record s
      | Some a \<Rightarrow>
          if state a = Cancelled then Raise Invalid_transition s
          else Return True (transitioned s aid Cancelled (Ev_cancel aid)))"

text \<open>
  Modelled from the spec: \<^verbatim>\<open>trigger_policy(location_id=\<dots>)\<close>, a fire-and-forget
  hook (section 6). Its follow-on activities are out of scope; the call is recorded.
\<close>

definition trigger_policy :: "store \<Rightarrow> id \<Rightarrow> val \<Rightarrow> bool res" where
  "trigger_policy s aid location_id = Return True (s\<lparr>trace := trace s @ [Ev_trigger_policy aid location_id]\<rparr>)"

subsection \<open>Spell registry\<close>

text \<open>
  Modelled from the spec: \<^verbatim>\<open>get_by_patient_id(patient_id, exception_flag)\<close> of the spell
  registry (section 6) resolves the patient's open spell. The flag is the tri-state one of
  the \<^verbatim>\<open>get_last\<close> helpers below: \<^verbatim>\<open>'True'\<close> raises when a spell is found (the
  "already admitted" failure of section 4.6), \<^verbatim>\<open>'False'\<close> when none is. A spell is
  known by the activity that owns it, so \<^verbatim>\<open>spell.activity_id.id\<close> is the spell's
  id and an open spell is a spell activity that is neither completed nor cancelled.
\<close>

definition open_spell_ids :: "store \<Rightarrow> val \<Rightarrow> id list" where
  "open_spell_ids s patient_id =
     search (\<lambda>a. data_model a = Spell \<and> data_ref a Patient_id = patient_id \<and> \<not> terminal (state a))
       (activities s)"

text \<open>
  Modelled from the spec: \<^verbatim>\<open>get_by_patient_id\<close> returns the first open spell of
  the patient or \<^verbatim>\<open>False\<close>, after the check its flag asks for.
\<close>

definition get_by_patient_id :: "store \<Rightarrow> val \<Rightarrow> exception_flag \<Rightarrow> id option res" where
  "get_by_patient_id s patient_id exception =
     (let spell_id = open_spell_ids s patient_id
      in if exception = Raise_if_found \<and> spell_id \<noteq> [] then Raise (Already_admitted patient_id) s
         else if exception = Raise_if_not_found \<and> spell_id = [] then Raise (Spell_not_found patient_id) s
         else Return (first_or_false spell_id) s)"

subsection \<open>Location directory\<close>

text \<open>
  Modelled from the spec: \<^verbatim>\<open>get_closest_parent_id(location_id, usage)\<close> (section 6), the
  nearest ancestor of the given usage in the location tree, or \<^verbatim>\<open>False\<close>. The walk up
  is bounded by the number of locations, which a tree never exceeds; on a cyclic
  \<^verbatim>\<open>parent_id\<close> chain the bound is hit and the lookup raises.
\<close>

primrec closest_parent :: "nat \<Rightarrow> location list \<Rightarrow> id \<Rightarrow> usage \<Rightarrow> error + val" where
  "closest_parent 0 locs l u = Inl Recursion_limit"
| "closest_parent (Suc n) locs l u =
     (case browse locs l of
        None \<Rightarrow> Inr Unset
      | Some loc \<Rightarrow>
          (case location_parent_id loc of
             None \<Rightarrow> Inr Unset
           | Some p \<Rightarrow>
               (case browse locs p of
                  None \<Rightarrow> Inr Unset
                | Some parent \<Rightarrow> if usage parent = u then Inr (Ref p) else closest_parent n locs p u)))"

text \<open>
  Modelled from the spec: \<^verbatim>\<open>get_closest_parent_id\<close> on a field value; an empty
  location has no ancestor.
\<close>

definition get_closest_parent_id :: "store \<Rightarrow> val \<Rightarrow> usage \<Rightarrow> val res" where
  "get_closest_parent_id s location_id u =
     (case location_id of
        Ref l \<Rightarrow>
          (case closest_parent (length (locations s)) (locations s) l u of
             Inl e \<Rightarrow> Raise e s
           | Inr w \<Rightarrow> Return w s)
      | _ \<Rightarrow> Return Unset s)"

text \<open>
  Modelled from the spec: \<^verbatim>\<open>get_available_location_ids(usages)\<close> (section 6), the
  currently available locations of the given usages.
\<close>

definition get_available_location_ids :: "store \<Rightarrow> usage list \<Rightarrow> id list" where
  "get_available_location_ids s usages =
     search (\<lambda>l. usage l \<in> set usages \<and> is_available l) (locations s)"

section \<open>The workflows of operations.py\<close>

subsection \<open>submit\<close>

text \<open>\<^verbatim>\<open>nh_clinical_patient_move.submit\<close>\<close>

definition patient_move_submit :: "store \<Rightarrow> id \<Rightarrow> vals \<Rightarrow> bool res" where
  "patient_move_submit s activity_id vs =
     (case
        (case map_of vs Patient_id of
           Some patient_id \<Rightarrow>
             if map_of vs Parent_id = None then
               (case get_by_patient_id s patient_id No_check of
                  Raise e s1 \<Rightarrow> Raise e s1
                | Return spell_id s1 \<Rightarrow>
                    (case spell_id of
                       None \<Rightarrow> Return True s1
                     | Some sp \<Rightarrow> write_activity s1 (Some activity_id) (\<lambda>a. a\<lparr>parent_id := Some sp\<rparr>)))
             else Return True s
         | None \<Rightarrow> Return True s)
      of
        Raise e s1 \<Rightarrow> Raise e s1
      | Return _ s1 \<Rightarrow> base_submit s1 activity_id vs)"

text \<open>
  \<^verbatim>\<open>location and not location.patient_ids\<close>, raising
  \<^verbatim>\<open>'No patient in location %s' % location.name\<close>
\<close>

definition check_occupied :: "store \<Rightarrow> val \<Rightarrow> bool res" where
  "check_occupied s loc =
     (case loc of
        Ref l \<Rightarrow>
          (case browse (locations s) l of
             None \<Rightarrow> Raise Missing_record s
           | Some location \<Rightarrow>
               if patient_ids location = [] then Raise (No_patient_in_location (location_name location)) s
               else Return True s)
      | _ \<Rightarrow> Return True s)"

text \<open>\<^verbatim>\<open>nh_clinical_patient_swap_beds.submit\<close>\<close>

definition swap_beds_submit :: "store \<Rightarrow> id \<Rightarrow> vals \<Rightarrow> bool res" where
  "swap_beds_submit s activity_id vs =
     (case base_submit s activity_id vs of
        Raise e s1 \<Rightarrow> Raise e s1
      | Return res s1 \<Rightarrow>
          (let location1 = data_of s1 activity_id Location1_id;
               location2 = data_of s1 activity_id Location2_id
           in case check_occupied s1 location1 of
                Raise e s2 \<Rightarrow> Raise e s2
              | Return _ s2 \<Rightarrow>
                  (case check_occupied s2 location2 of
                     Raise e s3 \<Rightarrow> Raise e s3
                   | Return _ s3 \<Rightarrow>
                       (case get_closest_parent_id s3 location1 Ward of
                          Raise e s4 \<Rightarrow> Raise e s4
                        | Return ward1_id s4 \<Rightarrow>
                            (case get_closest_parent_id s4 location2 Ward of
                               Raise e s5 \<Rightarrow> Raise e s5
                             | Return ward2_id s5 \<Rightarrow>
                                 if ward1_id \<noteq> ward2_id then Raise Different_wards s5
                                 else Return res s5)))))"

text \<open>\<^verbatim>\<open>NhClinicalPatientPlacement.submit\<close>\<close>

definition placement_submit :: "store \<Rightarrow> id \<Rightarrow> vals \<Rightarrow> bool res" where
  "placement_submit s activity_id vs =
     (case map_of vs Location_id of
        None \<Rightarrow> base_submit s activity_id vs
      | Some location_id \<Rightarrow>
          if truthy location_id \<and>
             (case location_id of
                Ref l \<Rightarrow> l \<notin> set (get_available_location_ids s [Bed])
              | _ \<Rightarrow> True)
          then Raise (Location_not_available location_id) s
          else base_submit s activity_id vs)"

text \<open>\<^verbatim>\<open>nh_clinical_patient_discharge.submit\<close>\<close>

definition discharge_submit :: "store \<Rightarrow> id \<Rightarrow> vals \<Rightarrow> bool res" where
  "discharge_submit s activity_id vs =
     (case map_of vs Patient_id of
        None \<Rightarrow> Raise Patient_required_for_discharge s
      | Some patient_id \<Rightarrow>
          (case get_by_patient_id s patient_id Raise_if_not_found of
             Raise e s1 \<Rightarrow> Raise e s1
           | Return spell_id s1 \<Rightarrow>
               (let spell_location = (case spell_id of None \<Rightarrow> Unset | Some sp \<Rightarrow> data_of s1 sp Location_id);
                    data = (Location_id, spell_location) # vs
                in case write_activity s1 (Some activity_id) (\<lambda>a. a\<lparr>parent_id := spell_id\<rparr>) of
                     Raise e s2 \<Rightarrow> Raise e s2
                   | Return _ s2 \<Rightarrow> base_submit s2 activity_id data)))"

text \<open>\<^verbatim>\<open>nh_clinical_patient_admission.submit\<close>\<close>

definition admission_submit :: "store \<Rightarrow> id \<Rightarrow> vals \<Rightarrow> bool res" where
  "admission_submit s activity_id vs =
     (case map_of vs Patient_id of
        Some patient_id \<Rightarrow>
          (case get_by_patient_id s patient_id Raise_if_found of
             Raise e s1 \<Rightarrow> Raise e s1
           | Return _ s1 \<Rightarrow> base_submit s1 activity_id vs)
      | None \<Rightarrow> Raise Patient_required_for_admission s)"

text \<open>
  \<^verbatim>\<open>activity_pool.submit(cr, uid, activity_id, vals)\<close>: the engine hands the call to the
  \<^verbatim>\<open>submit\<close> of the activity's data model. The spell model is not defined in
  \<^verbatim>\<open>operations.py\<close>; it gets the base submit.
\<close>

definition activity_submit :: "store \<Rightarrow> id \<Rightarrow> vals \<Rightarrow> bool res" where
  "activity_submit s activity_id vs =
     (case browse (activities s) activity_id of
        None \<Rightarrow> Raise Missing_record s
      | Some a \<Rightarrow>
          (case data_model a of
             Patient_move \<Rightarrow> patient_move_submit s activity_id vs
           | Swap_beds \<Rightarrow> swap_beds_submit s activity_id vs
           | Placement \<Rightarrow> placement_submit s activity_id vs
           | Discharge \<Rightarrow> discharge_submit s activity_id vs
           | Admission \<Rightarrow> admission_submit s activity_id vs
           | Spell \<Rightarrow> base_submit s activity_id vs))"

subsection \<open>Movement\<close>

text \<open>
  The search of \<^verbatim>\<open>nh_clinical_patient_move.complete\<close>: completed movements of the
  patient, \<^verbatim>\<open>order='sequence desc'\<close>.
\<close>

definition completed_moves :: "store \<Rightarrow> val \<Rightarrow> id list" where
  "completed_moves s patient_id =
     rev (sort_key (\<lambda>i. sequence (activities s ! (i - 1)))
       (search (\<lambda>a. data_model a = Patient_move \<and> state a = Completed \<and> data_ref a Patient_id = patient_id)
          (activities s)))"

text \<open>
  The value \<^verbatim>\<open>nh_clinical_patient_move.complete\<close> writes to
  \<^verbatim>\<open>from_location_id\<close>: the destination of the first movement of that search, or
  \<^verbatim>\<open>False\<close>.
\<close>

definition last_location :: "store \<Rightarrow> val \<Rightarrow> val" where
  "last_location s patient_id =
     (case first_or_false (completed_moves s patient_id) of
        Some last_movement \<Rightarrow> data_of s last_movement Location_id
      | None \<Rightarrow> Unset)"

definition completed_move_of :: "store \<Rightarrow> val \<Rightarrow> id \<Rightarrow> bool" where
  "completed_move_of s patient_id i =
     (case browse (activities s) i of
        None \<Rightarrow> False
      | Some a \<Rightarrow> data_model a = Patient_move \<and> state a = Completed \<and> data_ref a Patient_id = patient_id)"

text \<open>\<^verbatim>\<open>nh_clinical_patient_move.complete\<close>\<close>

definition patient_move_complete :: "store \<Rightarrow> id \<Rightarrow> bool res" where
  "patient_move_complete s activity_id =
     (case browse (activities s) activity_id of
        None \<Rightarrow> Raise Missing_record s
      | Some activity \<Rightarrow>
          if \<not> truthy (data_ref activity Location_id) then Raise No_destination_location s
          else
            (let last_movement_id = first_or_false (completed_moves s (data_ref activity Patient_id));
                 location_id = (case last_movement_id of
                                  Some last_movement \<Rightarrow> data_of s last_movement Location_id
                                | None \<Rightarrow> Unset);
                 s1 = write_data s activity_id From_location_id location_id
             in case write_patient s1 (data_of s1 activity_id Patient_id) (data_of s1 activity_id Location_id) of
                  Raise e s2 \<Rightarrow> Raise e s2
                | Return _ s2 \<Rightarrow>
                    (case (case parent_of s2 activity_id of
                             Some parent \<Rightarrow>
                               activity_submit s2 parent [(Location_id, data_of s2 activity_id Location_id)]
                           | None \<Rightarrow> Return True s2)
                     of
                       Raise e s3 \<Rightarrow> Raise e s3
                     | Return _ s3 \<Rightarrow>
                         (let s4 = (if \<not> truthy (data_of s3 activity_id Move_datetime)
                                    then write_data s3 activity_id Move_datetime (Datetime (now s3))
                                    else s3)
                          in base_complete s4 activity_id))))"

subsection \<open>Swap beds\<close>

text \<open>\<^verbatim>\<open>location.patient_ids[0]\<close>\<close>

definition first_patient :: "store \<Rightarrow> val \<Rightarrow> id res" where
  "first_patient s loc =
     (case loc of
        Ref l \<Rightarrow>
          (case browse (locations s) l of
             None \<Rightarrow> Raise Missing_record s
           | Some location \<Rightarrow>
               (case patient_ids location of
                  [] \<Rightarrow> Raise Index_error s
                | p # _ \<Rightarrow> Return p s))
      | _ \<Rightarrow> Raise Index_error s)"

text \<open>
  \<^verbatim>\<open>nh_clinical_patient_swap_beds.complete\<close>. The argument \<open>complete\<close> is
  \<^verbatim>\<open>activity_pool.complete\<close>, the engine's dispatch, defined at the end.
\<close>

definition swap_beds_complete :: "(store \<Rightarrow> id \<Rightarrow> bool res) \<Rightarrow> store \<Rightarrow> id \<Rightarrow> bool res" where
  "swap_beds_complete complete s activity_id =
     (let location1 = data_of s activity_id Location1_id;
          location2 = data_of s activity_id Location2_id
      in case first_patient s location1 of
           Raise e s1 \<Rightarrow> Raise e s1
         | Return patient1 s1 \<Rightarrow>
       (case first_patient s1 location2 of
           Raise e s2 \<Rightarrow> Raise e s2
         | Return patient2 s2 \<Rightarrow>
       (case get_by_patient_id s2 (Ref patient1) No_check of
           Raise e s3 \<Rightarrow> Raise e s3
         | Return spell1_id s3 \<Rightarrow>
       (case get_by_patient_id s3 (Ref patient2) No_check of
           Raise e s4 \<Rightarrow> Raise e s4
         | Return spell2_id s4 \<Rightarrow>
       (case create_activity Patient_move s4 (spell1_id, Some activity_id)
               [(Location_id, location2), (Patient_id, Ref patient1)] of
           Raise e s5 \<Rightarrow> Raise e s5
         | Return move1_id s5 \<Rightarrow>
       (case create_activity Patient_move s5 (spell2_id, Some activity_id)
               [(Location_id, location1), (Patient_id, Ref patient2)] of
           Raise e s6 \<Rightarrow> Raise e s6
         | Return move2_id s6 \<Rightarrow>
       (case complete s6 move1_id of
           Raise e s7 \<Rightarrow> Raise e s7
         | Return _ s7 \<Rightarrow>
       (case complete s7 move2_id of
           Raise e s8 \<Rightarrow> Raise e s8
         | Return _ s8 \<Rightarrow> base_complete s8 activity_id))))))))"

subsection \<open>Placement\<close>

text \<open>The loop of \<^verbatim>\<open>cancel_open_placements\<close>: \<^verbatim>\<open>placement.cancel(placement.activity_id.id)\<close>\<close>

fun cancel_each :: "store \<Rightarrow> id list \<Rightarrow> bool res" where
  "cancel_each s [] = Return True s"
| "cancel_each s (placement # placements) =
     (case base_cancel s placement of
        Raise e s1 \<Rightarrow> Raise e s1
      | Return _ s1 \<Rightarrow> cancel_each s1 placements)"

text \<open>
  \<^verbatim>\<open>NhClinicalPatientPlacement.cancel_open_placements\<close>. A placement row is known by
  the activity that owns it, so the search result and \<open>placement_to_keep_open\<close> are
  activity ids.
\<close>

definition open_placements :: "store \<Rightarrow> val \<Rightarrow> id list" where
  "open_placements s patient_id =
     search (\<lambda>a. data_model a = Placement \<and> data_ref a Patient_id = patient_id \<and>
                 state a \<notin> {Completed, Cancelled})
       (activities s)"

definition cancel_open_placements :: "store \<Rightarrow> val \<Rightarrow> id option \<Rightarrow> bool res" where
  "cancel_open_placements s patient_id placement_to_keep_open =
     (let placements = open_placements s patient_id;
          placements = (case placement_to_keep_open of
                          Some keep \<Rightarrow> filter (\<lambda>p. p \<noteq> keep) placements
                        | None \<Rightarrow> placements)
      in cancel_each s placements)"

text \<open>
  \<^verbatim>\<open>NhClinicalPatientPlacement.create\<close>. The inherited \<^verbatim>\<open>create\<close> makes the
  placement row, here the activity owning the payload \<open>vs\<close>.
  \<^verbatim>\<open>suggested_location_id\<close> and \<^verbatim>\<open>patient_id\<close> are the two columns declared
  \<^verbatim>\<open>required=True\<close>, so the row is refused when either is missing or empty, before
  any placement is cancelled.
\<close>

definition placement_create :: "store \<Rightarrow> id option \<times> id option \<Rightarrow> vals \<Rightarrow> id res" where
  "placement_create s vals_activity vs =
     (case map_of vs Suggested_location_id of
        Some (Ref l) \<Rightarrow>
          (case map_of vs Patient_id of
             Some (Ref p) \<Rightarrow>
               (case create_activity Placement s vals_activity vs of
                  Raise e s1 \<Rightarrow> Raise e s1
                | Return new_placement s1 \<Rightarrow>
                    (case cancel_open_placements s1 (Ref p) (Some new_placement) of
                       Raise e s2 \<Rightarrow> Raise e s2
                     | Return _ s2 \<Rightarrow> Return new_placement s2))
           | _ \<Rightarrow> Raise (Required_field Patient_id) s)
      | _ \<Rightarrow> Raise (Required_field Suggested_location_id) s)"

text \<open>\<^verbatim>\<open>NhClinicalPatientPlacement.complete\<close>\<close>

definition placement_complete :: "(store \<Rightarrow> id \<Rightarrow> bool res) \<Rightarrow> store \<Rightarrow> id \<Rightarrow> bool res" where
  "placement_complete complete s activity_id =
     (case browse (activities s) activity_id of
        None \<Rightarrow> Raise Missing_record s
      | Some placement_activity \<Rightarrow>
          if \<not> truthy (data_ref placement_activity Location_id) then Raise Placement_without_location s
          else
       (case base_complete s activity_id of
           Raise e s1 \<Rightarrow> Raise e s1
         | Return res s1 \<Rightarrow>
       (let patient_id = data_of s1 activity_id Patient_id;
            location_id = data_of s1 activity_id Location_id
        in case get_by_patient_id s1 patient_id No_check of
           Raise e s2 \<Rightarrow> Raise e s2
         | Return spell_id s2 \<Rightarrow>
       (case spell_id of
           None \<Rightarrow> Raise (No_open_spell patient_id) s2
         | Some spell_activity_id \<Rightarrow>
       (case create_activity Patient_move s2 (Some spell_activity_id, Some activity_id)
               [(Patient_id, patient_id), (Location_id, location_id)] of
           Raise e s3 \<Rightarrow> Raise e s3
         | Return move_activity_id s3 \<Rightarrow>
       (case complete s3 move_activity_id of
           Raise e s4 \<Rightarrow> Raise e s4
         | Return _ s4 \<Rightarrow>
       (case activity_submit s4 spell_activity_id [(Location_id, location_id)] of
           Raise e s5 \<Rightarrow> Raise e s5
         | Return _ s5 \<Rightarrow>
       (case trigger_policy s5 activity_id location_id of
           Raise e s6 \<Rightarrow> Raise e s6
         | Return _ s6 \<Rightarrow> Return res s6))))))))"

subsection \<open>Discharge and admission\<close>

text \<open>
  The search shared by the two \<^verbatim>\<open>get_last\<close> helpers: completed activities of one
  data model for the patient whose parent is in the given state,
  \<^verbatim>\<open>order='date_terminated desc, sequence desc'\<close> (an empty date sorts first in
  descending order).
\<close>

definition last_key :: "activity \<Rightarrow> (nat \<times> nat) \<times> nat" where
  "last_key a = ((case date_terminated a of None \<Rightarrow> (1, 0) | Some d \<Rightarrow> (0, d)), sequence a)"

definition completed_with_parent :: "store \<Rightarrow> data_model \<Rightarrow> state \<Rightarrow> val \<Rightarrow> id list" where
  "completed_with_parent s m parent_state patient_id =
     rev (sort_key (\<lambda>i. last_key (activities s ! (i - 1)))
       (search (\<lambda>a. data_ref a Patient_id = patient_id \<and> data_model a = m \<and> state a = Completed \<and>
                    (case parent_id a of None \<Rightarrow> False | Some p \<Rightarrow> state_of s p = Some parent_state))
          (activities s)))"

text \<open>\<^verbatim>\<open>nh_clinical_patient_discharge.get_last\<close>\<close>

definition discharge_get_last :: "store \<Rightarrow> val \<Rightarrow> exception_flag \<Rightarrow> id option res" where
  "discharge_get_last s patient_id exception =
     (let discharge_ids = completed_with_parent s Discharge Completed patient_id
      in if exception \<noteq> No_check \<and> discharge_ids \<noteq> [] \<and> exception = Raise_if_found
         then Raise (Already_discharged patient_id) s
         else if exception \<noteq> No_check \<and> discharge_ids = [] \<and> exception \<noteq> Raise_if_found
         then Raise (Discharge_not_found patient_id) s
         else Return (first_or_false discharge_ids) s)"

text \<open>\<^verbatim>\<open>nh_clinical_patient_admission.get_last\<close>\<close>

definition admission_get_last :: "store \<Rightarrow> val \<Rightarrow> exception_flag \<Rightarrow> id option res" where
  "admission_get_last s patient_id exception =
     (let admission_ids = completed_with_parent s Admission Started patient_id
      in if exception \<noteq> No_check \<and> admission_ids \<noteq> [] \<and> exception = Raise_if_found
         then Raise (Active_admission_exists patient_id) s
         else if exception \<noteq> No_check \<and> admission_ids = [] \<and> exception \<noteq> Raise_if_found
         then Raise (Admission_not_found patient_id) s
         else Return (first_or_false admission_ids) s)"

text \<open>\<^verbatim>\<open>activity.parent_id.data_ref.pos_id.location_id.id\<close>\<close>

definition pos_default_location :: "store \<Rightarrow> id option \<Rightarrow> val res" where
  "pos_default_location s parent =
     (case parent of
        None \<Rightarrow> Raise Attribute_error s
      | Some p \<Rightarrow>
          (case data_of s p Pos_id of
             Ref q \<Rightarrow>
               (case browse (poss s) q of
                  None \<Rightarrow> Raise Missing_record s
                | Some po \<Rightarrow> Return (pos_location_id po) s)
           | _ \<Rightarrow> Return Unset s))"

definition datetime_of :: "val \<Rightarrow> nat option" where
  "datetime_of v = (case v of Datetime d \<Rightarrow> Some d | _ \<Rightarrow> None)"

text \<open>\<^verbatim>\<open>nh_clinical_patient_discharge.complete\<close>\<close>

definition discharge_complete :: "(store \<Rightarrow> id \<Rightarrow> bool res) \<Rightarrow> store \<Rightarrow> id \<Rightarrow> bool res" where
  "discharge_complete complete s activity_id =
     (case base_complete s activity_id of
        Raise e s1 \<Rightarrow> Raise e s1
      | Return res s1 \<Rightarrow>
     (let discharge_location_id = search (\<lambda>l. location_code l = ''GDL0987654321'') (locations s1)
      in case (case discharge_location_id of
                 l # _ \<Rightarrow> Return (Ref l) s1
               | [] \<Rightarrow> pos_default_location s1 (parent_of s1 activity_id)) of
        Raise e s2 \<Rightarrow> Raise e s2
      | Return loc_id s2 \<Rightarrow>
     (case create_activity Patient_move s2 (parent_of s2 activity_id, Some activity_id)
             [(Patient_id, data_of s2 activity_id Patient_id),
              (Location_id, loc_id),
              (Move_datetime, data_of s2 activity_id Discharge_date)] of
        Raise e s3 \<Rightarrow> Raise e s3
      | Return move_activity_id s3 \<Rightarrow>
     (case complete s3 move_activity_id of
        Raise e s4 \<Rightarrow> Raise e s4
      | Return _ s4 \<Rightarrow>
     (case (case parent_of s4 activity_id of
              None \<Rightarrow> Raise Missing_record s4
            | Some parent \<Rightarrow> complete s4 parent) of
        Raise e s5 \<Rightarrow> Raise e s5
      | Return _ s5 \<Rightarrow>
     (case (if truthy (data_of s5 activity_id Discharge_date)
            then write_activity s5 (parent_of s5 activity_id)
                   (\<lambda>a. a\<lparr>date_terminated := datetime_of (data_of s5 activity_id Discharge_date)\<rparr>)
            else Return True s5) of
        Raise e s6 \<Rightarrow> Raise e s6
      | Return _ s6 \<Rightarrow> Return res s6))))))"

text \<open>The location row behind \<^verbatim>\<open>activity.data_ref.location_id\<close>, if the field is set.\<close>

definition browse_location :: "store \<Rightarrow> val \<Rightarrow> location option res" where
  "browse_location s v =
     (case v of
        Ref l \<Rightarrow>
          (case browse (locations s) l of
             None \<Rightarrow> Raise Missing_record s
           | Some loc \<Rightarrow> Return (Some loc) s)
      | _ \<Rightarrow> Return None s)"

text \<open>\<^verbatim>\<open>nh_clinical_patient_discharge.cancel\<close>\<close>

definition discharge_cancel :: "(store \<Rightarrow> id \<Rightarrow> bool res) \<Rightarrow> store \<Rightarrow> id \<Rightarrow> bool res" where
  "discharge_cancel complete s activity_id =
     (case browse (activities s) activity_id of
        None \<Rightarrow> Raise Missing_record s
      | Some activity \<Rightarrow>
     (case admission_get_last s (data_ref activity Patient_id) Raise_if_found of
        Raise e s1 \<Rightarrow> Raise e s1
      | Return _ s1 \<Rightarrow>
     (case base_cancel s1 activity_id of
        Raise e s2 \<Rightarrow> Raise e s2
      | Return res s2 \<Rightarrow>
     (case write_activity s2 (parent_of s2 activity_id)
             (\<lambda>a. a\<lparr>state := Started, date_terminated := None\<rparr>) of
        Raise e s3 \<Rightarrow> Raise e s3
      | Return _ s3 \<Rightarrow>
     (case create_activity Patient_move s3 (parent_of s3 activity_id, Some activity_id)
             [(Patient_id, data_of s3 activity_id Patient_id),
              (Location_id, data_of s3 activity_id Location_id),
              (Move_datetime, data_of s3 activity_id Discharge_date)] of
        Raise e s4 \<Rightarrow> Raise e s4
      | Return move_activity_id s4 \<Rightarrow>
     (let location_id = data_of s4 activity_id Location_id
      in case browse_location s4 location_id of
        Raise e s5 \<Rightarrow> Raise e s5
      | Return location s5 \<Rightarrow>
          if map_option usage location = Some Bed \<and> map_option is_available location = Some True
          then
            (case complete s5 move_activity_id of
               Raise e s6 \<Rightarrow> Raise e s6
             | Return _ s6 \<Rightarrow> Return res s6)
          else
     (case (if map_option usage location \<noteq> Some Ward
            then get_closest_parent_id s5 location_id Ward
            else Return location_id s5) of
        Raise e s6 \<Rightarrow> Raise e s6
      | Return ward_id s6 \<Rightarrow>
     (case activity_submit s6 move_activity_id [(Location_id, ward_id)] of
        Raise e s7 \<Rightarrow> Raise e s7
      | Return _ s7 \<Rightarrow>
     (case complete s7 move_activity_id of
        Raise e s8 \<Rightarrow> Raise e s8
      | Return _ s8 \<Rightarrow>
     (case trigger_policy s8 activity_id ward_id of
        Raise e s9 \<Rightarrow> Raise e s9
      | Return _ s9 \<Rightarrow> Return res s9))))))))))"

text \<open>\<^verbatim>\<open>[6, False, [d.id for d in admission.con_doctor_ids]]\<close>\<close>

definition replace_ids :: "val \<Rightarrow> val" where
  "replace_ids v = (case v of Refs ds \<Rightarrow> Refs ds | _ \<Rightarrow> Refs [])"

text \<open>\<^verbatim>\<open>nh_clinical_patient_admission.complete\<close>\<close>

definition admission_complete :: "(store \<Rightarrow> id \<Rightarrow> bool res) \<Rightarrow> store \<Rightarrow> id \<Rightarrow> bool res" where
  "admission_complete complete s activity_id =
     (case base_complete s activity_id of
        Raise e s1 \<Rightarrow> Raise e s1
      | Return res s1 \<Rightarrow>
     (case create_activity Spell s1 (None, Some activity_id)
             [(Patient_id, data_of s1 activity_id Patient_id),
              (Location_id, data_of s1 activity_id Location_id),
              (Pos_id, data_of s1 activity_id Pos_id),
              (Code, data_of s1 activity_id Code),
              (Start_date, data_of s1 activity_id Start_date),
              (Con_doctor_ids, replace_ids (data_of s1 activity_id Con_doctor_ids)),
              (Ref_doctor_ids, replace_ids (data_of s1 activity_id Ref_doctor_ids))] of
        Raise e s2 \<Rightarrow> Raise e s2
      | Return spell_activity_id s2 \<Rightarrow>
     (case base_start s2 spell_activity_id of
        Raise e s3 \<Rightarrow> Raise e s3
      | Return _ s3 \<Rightarrow>
     (case write_activity s3 (Some activity_id) (\<lambda>a. a\<lparr>parent_id := Some spell_activity_id\<rparr>) of
        Raise e s4 \<Rightarrow> Raise e s4
      | Return _ s4 \<Rightarrow>
     (case create_activity Patient_move s4 (Some spell_activity_id, Some activity_id)
             [(Patient_id, data_of s4 activity_id Patient_id),
              (Location_id, data_of s4 activity_id Location_id),
              (Move_datetime, data_of s4 activity_id Start_date)] of
        Raise e s5 \<Rightarrow> Raise e s5
      | Return move_activity_id s5 \<Rightarrow>
     (case complete s5 move_activity_id of
        Raise e s6 \<Rightarrow> Raise e s6
      | Return _ s6 \<Rightarrow>
     (case trigger_policy s6 activity_id (data_of s6 activity_id Location_id) of
        Raise e s7 \<Rightarrow> Raise e s7
      | Return _ s7 \<Rightarrow> Return res s7)))))))"

subsection \<open>The engine's dispatch of complete\<close>

text \<open>
  \<^verbatim>\<open>activity_pool.complete(cr, uid, activity_id)\<close> hands the call to the
  \<^verbatim>\<open>complete\<close> of the activity's data model, which may complete further activities.
  The first argument bounds the depth of that nesting, as Python's recursion limit does.
  The spell model is not defined in \<^verbatim>\<open>operations.py\<close>; it gets the base completion.
\<close>

primrec activity_complete :: "nat \<Rightarrow> store \<Rightarrow> id \<Rightarrow> bool res" where
  "activity_complete 0 = (\<lambda>s activity_id. Raise Recursion_limit s)"
| "activity_complete (Suc n) =
     (\<lambda>s activity_id.
        case browse (activities s) activity_id of
          None \<Rightarrow> Raise Missing_record s
        | Some a \<Rightarrow>
            (case data_model a of
               Patient_move \<Rightarrow> patient_move_complete s activity_id
             | Swap_beds \<Rightarrow> swap_beds_complete (activity_complete n) s activity_id
             | Placement \<Rightarrow> placement_complete (activity_complete n) s activity_id
             | Discharge \<Rightarrow> discharge_complete (activity_complete n) s activity_id
             | Admission \<Rightarrow> admission_complete (activity_complete n) s activity_id
             | Spell \<Rightarrow> base_complete s activity_id))"

section \<open>Order of calls\<close>

text \<open>
  \<open>precedes e1 e2 tr\<close>: the call \<open>e2\<close> is made after the (first) call \<open>e1\<close> in
  the trace \<open>tr\<close>.
\<close>

definition precedes :: "event \<Rightarrow> event \<Rightarrow> event list \<Rightarrow> bool" where
  "precedes e1 e2 tr = (e2 \<in> set (drop 1 (dropWhile (\<lambda>e. e \<noteq> e1) tr)))"

section \<open>Runs of the movement workflow\<close>









section \<open>A small hospital\<close>

text \<open>
  A concrete store on which the theorems below are instantiated. Ward A (location 1)
  holds bed 1 (location 2, patient 1), bed 2 (location 3, patient 2) and the free bed 3
  (location 4); ward B (location 5) holds bed 4 (location 6, patient 3); location 7 is
  the discharge location. Patients 1 and 2 have an open spell, patient 3 has none.
\<close>

definition row :: "data_model \<Rightarrow> state \<Rightarrow> id option \<Rightarrow> nat \<Rightarrow> vals \<Rightarrow> activity" where
  "row m st p n vs =
     \<lparr>data_model = m, state = st, parent_id = p, creator_id = None, sequence = n,
      date_terminated = None, data_ref = write_vals (\<lambda>f. Unset) vs\<rparr>"

definition hospital_locations :: "location list" where
  "hospital_locations =
     [\<lparr>location_name = ''Ward A'', location_code = ''A'', usage = Ward, is_available = True,
       location_parent_id = None, patient_ids = []\<rparr>,
      \<lparr>location_name = ''Bed 1'', location_code = ''A1'', usage = Bed, is_available = False,
       location_parent_id = Some 1, patient_ids = [1]\<rparr>,
      \<lparr>location_name = ''Bed 2'', location_code = ''A2'', usage = Bed, is_available = False,
       location_parent_id = Some 1, patient_ids = [2]\<rparr>,
      \<lparr>location_name = ''Bed 3'', location_code = ''A3'', usage = Bed, is_available = True,
       location_parent_id = Some 1, patient_ids = []\<rparr>,
      \<lparr>location_name = ''Ward B'', location_code = ''B'', usage = Ward, is_available = True,
       location_parent_id = None, patient_ids = []\<rparr>,
      \<lparr>location_name = ''Bed 4'', location_code = ''B4'', usage = Bed, is_available = False,
       location_parent_id = Some 5, patient_ids = [3]\<rparr>,
      \<lparr>location_name = ''Discharged'', location_code = ''GDL0987654321'', usage = Other_usage,
       is_available = True, location_parent_id = None, patient_ids = []\<rparr>]"

definition hospital :: store where
  "hospital =
     \<lparr>activities =
        [row Spell Started None 1 [(Patient_id, Ref 1), (Location_id, Ref 2), (Pos_id, Ref 1)],
         row Patient_move Completed (Some 1) 2 [(Patient_id, Ref 1), (Location_id, Ref 2)],
         row Spell Started None 3 [(Patient_id, Ref 2), (Location_id, Ref 3), (Pos_id, Ref 1)],
         row Patient_move Completed (Some 3) 4 [(Patient_id, Ref 2), (Location_id, Ref 3)],
         row Placement Draft (Some 1) 0
           [(Patient_id, Ref 1), (Suggested_location_id, Ref 1), (Location_id, Ref 4)],
         row Swap_beds Draft None 0 [(Location1_id, Ref 2), (Location2_id, Ref 3)],
         row Discharge Started (Some 1) 5
           [(Patient_id, Ref 1), (Location_id, Ref 2), (Discharge_date, Datetime 50)],
         row Patient_move Draft (Some 1) 0 [(Patient_id, Ref 1), (Location_id, Ref 4)],
         row Placement Draft None 0
           [(Patient_id, Ref 3), (Suggested_location_id, Ref 5), (Location_id, Ref 4)],
         row Admission Draft None 0 [],
         row Patient_move Draft (Some 1) 0 [(Patient_id, Ref 1), (Location_id, Ref 2)]],
      patients = [\<lparr>current_location_id = Ref 2\<rparr>, \<lparr>current_location_id = Ref 3\<rparr>,
                  \<lparr>current_location_id = Ref 6\<rparr>],
      locations = hospital_locations,
      poss = [\<lparr>pos_location_id = Ref 1\<rparr>],
      now = 100,
      trace = []\<rparr>"

text \<open>
  The same hospital later. Patient 1 has been discharged twice, the last time from the
  free bed 3; patient 2 has been discharged from bed 1, which is taken again; patient 3
  has been discharged from ward A and admitted again since.
\<close>

definition discharged :: store where
  "discharged =
     \<lparr>activities =
        [row Spell Completed None 1 [(Patient_id, Ref 1), (Location_id, Ref 7), (Pos_id, Ref 1)],
         row Discharge Completed (Some 1) 2
           [(Patient_id, Ref 1), (Location_id, Ref 2), (Discharge_date, Datetime 20)],
         row Spell Completed None 4 [(Patient_id, Ref 1), (Location_id, Ref 7), (Pos_id, Ref 1)],
         row Admission Completed (Some 3) 3 [(Patient_id, Ref 1), (Location_id, Ref 1), (Pos_id, Ref 1)],
         row Discharge Completed (Some 3) 5
           [(Patient_id, Ref 1), (Location_id, Ref 4), (Discharge_date, Datetime 50)],
         row Spell Completed None 6 [(Patient_id, Ref 2), (Location_id, Ref 7), (Pos_id, Ref 1)],
         row Discharge Completed (Some 6) 7
           [(Patient_id, Ref 2), (Location_id, Ref 2), (Discharge_date, Datetime 60)],
         row Spell Completed None 8 [(Patient_id, Ref 3), (Location_id, Ref 7), (Pos_id, Ref 1)],
         row Discharge Completed (Some 8) 9
           [(Patient_id, Ref 3), (Location_id, Ref 1), (Discharge_date, Datetime 70)],
         row Spell Started None 11 [(Patient_id, Ref 3), (Location_id, Ref 5), (Pos_id, Ref 1)],
         row Admission Completed (Some 10) 10 [(Patient_id, Ref 3), (Location_id, Ref 5), (Pos_id, Ref 1)]],
      patients = [\<lparr>current_location_id = Ref 7\<rparr>, \<lparr>current_location_id = Ref 7\<rparr>,
                  \<lparr>current_location_id = Ref 5\<rparr>],
      locations = hospital_locations,
      poss = [\<lparr>pos_location_id = Ref 1\<rparr>],
      now = 200,
      trace = []\<rparr>"




section \<open>Properties\<close>

subsection \<open>Rows, searches and the engine's writes\<close>

lemmas store_defs = hospital_def discharged_def hospital_locations_def row_def browse_def write_vals_def search_def
  first_or_false_def data_of_def parent_of_def state_of_def write_data_def write_rec_def
  write_patient_def write_activity_def create_activity_def created_def new_row_def base_submit_def
  submitted_def
  base_complete_def base_cancel_def base_start_def transitioned_def stamp_def terminal_def
  next_sequence_def trigger_policy_def Let_def open_spell_ids_def get_by_patient_id_def
  get_closest_parent_id_def get_available_location_ids_def

lemma browse_write_rec:
  "browse (write_rec xs i f) j = (if j = i then map_option f (browse xs i) else browse xs j)"
  by (auto simp: browse_def write_rec_def nth_list_update)

lemma length_write_rec: "length (write_rec xs i f) = length xs"
  by (simp add: write_rec_def)

lemma browse_append_new: "browse (xs @ [x]) i =
  (if i = Suc (length xs) then Some x else browse xs i)"
  by (auto simp: browse_def nth_append)

lemma browse_SomeD: "browse xs i = Some x \<Longrightarrow> 0 < i \<and> i \<le> length xs"
  by (simp add: browse_def split: if_splits)

lemma browse_new_None [simp]: "browse xs (Suc (length xs)) = None"
  by (simp add: browse_def)

lemma browse_append_old: "browse xs i = Some x \<Longrightarrow> browse (xs @ [y]) i = Some x"
  by (auto simp: browse_append_new dest: browse_SomeD)

lemma in_search: "i \<in> set (search P xs) \<longleftrightarrow> (\<exists>x. browse xs i = Some x \<and> P x)"
  by (auto simp: search_def browse_def in_set_enumerate_eq image_iff)

lemma distinct_search: "distinct (search P xs)"
  by (simp add: search_def distinct_map_filter)

lemma search_append: "search P (xs @ [x]) = search P xs @ (if P x then [Suc (length xs)] else [])"
  by (simp add: search_def enumerate_append_eq)

lemma data_of_submitted: "data_of (submitted s i vs) j f =
   (if j = i \<and> browse (activities s) i \<noteq> None
    then (case map_of vs f of Some v \<Rightarrow> v | None \<Rightarrow> data_of s j f) else data_of s j f)"
  by (auto simp: data_of_def submitted_def browse_write_rec write_vals_def split: option.splits)

lemma state_of_submitted: "state_of (submitted s i vs) j = state_of s j"
  by (cases "browse (activities s) j") (auto simp: state_of_def submitted_def browse_write_rec)

lemma parent_of_submitted: "parent_of (submitted s i vs) j = parent_of s j"
  by (cases "browse (activities s) j") (auto simp: parent_of_def submitted_def browse_write_rec)

lemma stamp_simps [simp]:
  "state (stamp s st a) = st"
  "data_ref (stamp s st a) = data_ref a"
  "parent_id (stamp s st a) = parent_id a"
  "creator_id (stamp s st a) = creator_id a"
  "data_model (stamp s st a) = data_model a"
  "sequence (stamp s st a) = next_sequence s"
  "date_terminated (stamp s st a) = (if terminal st then Some (now s) else date_terminated a)"
  by (simp_all add: stamp_def)

lemma data_of_transitioned: "data_of (transitioned s i st ev) j f = data_of s j f"
  by (cases "browse (activities s) j") (auto simp: data_of_def transitioned_def browse_write_rec)

lemma parent_of_transitioned: "parent_of (transitioned s i st ev) j = parent_of s j"
  by (cases "browse (activities s) j") (auto simp: parent_of_def transitioned_def browse_write_rec)

lemma state_of_transitioned: "state_of (transitioned s i st ev) j =
   (if j = i \<and> browse (activities s) i \<noteq> None then Some st else state_of s j)"
  by (cases "browse (activities s) j") (auto simp: state_of_def transitioned_def browse_write_rec)

lemma data_of_write_data: "data_of (write_data s i f v) j g =
   (if j = i \<and> g = f \<and> browse (activities s) i \<noteq> None then v else data_of s j g)"
  by (cases "browse (activities s) j") (auto simp: data_of_def write_data_def browse_write_rec)

lemma parent_of_write_data: "parent_of (write_data s i f v) j = parent_of s j"
  by (cases "browse (activities s) j") (auto simp: parent_of_def write_data_def browse_write_rec)

lemma state_of_write_data: "state_of (write_data s i f v) j = state_of s j"
  by (cases "browse (activities s) j") (auto simp: state_of_def write_data_def browse_write_rec)

lemma base_submit_Return: "base_submit s aid vs = Return r s' \<longleftrightarrow>
   r \<and> browse (activities s) aid \<noteq> None \<and> s' = submitted s aid vs"
  by (auto simp: base_submit_def split: option.splits)

lemma base_complete_Return: "base_complete s aid = Return r s' \<longleftrightarrow>
   r \<and> (\<exists>a. browse (activities s) aid = Some a \<and> \<not> terminal (state a)) \<and>
   s' = transitioned s aid Completed (Ev_complete aid)"
  by (auto simp: base_complete_def split: option.splits)

lemma base_cancel_Return: "base_cancel s aid = Return r s' \<longleftrightarrow>
   r \<and> (\<exists>a. browse (activities s) aid = Some a \<and> state a \<noteq> Cancelled) \<and>
   s' = transitioned s aid Cancelled (Ev_cancel aid)"
  by (auto simp: base_cancel_def split: option.splits)

lemma write_patient_Return: "write_patient s p v = Return r s' \<Longrightarrow>
   r \<and> activities s' = activities s \<and> locations s' = locations s \<and> poss s' = poss s \<and> now s' = now s"
  by (auto simp: write_patient_def split: val.splits option.splits)

lemma length_transitioned: "length (activities (transitioned s i st ev)) = length (activities s)"
  by (simp add: transitioned_def length_write_rec)

lemma cancel_each_ok:
  "distinct ids \<Longrightarrow>
   \<forall>i\<in>set ids. \<exists>a. browse (activities s) i = Some a \<and> state a \<noteq> Cancelled \<Longrightarrow>
   \<exists>s'. cancel_each s ids = Return True s' \<and>
        (\<forall>i. state_of s' i = (if i \<in> set ids then Some Cancelled else state_of s i))"
proof (induction ids arbitrary: s)
  case Nil
  then show ?case by simp
next
  case (Cons p ps)
  from Cons.prems obtain a where a: "browse (activities s) p = Some a" "state a \<noteq> Cancelled"
    by auto
  define s1 where "s1 = transitioned s p Cancelled (Ev_cancel p)"
  have bc: "base_cancel s p = Return True s1"
    using a by (simp add: base_cancel_Return s1_def)
  have st1: "state_of s1 i = (if i = p then Some Cancelled else state_of s i)" for i
    using a by (simp add: s1_def state_of_transitioned)
  have "\<forall>i\<in>set ps. \<exists>a. browse (activities s1) i = Some a \<and> state a \<noteq> Cancelled"
    using Cons.prems by (auto simp: s1_def transitioned_def browse_write_rec)
  moreover have "distinct ps" using Cons.prems by simp
  ultimately obtain s' where s': "cancel_each s1 ps = Return True s'"
      "\<forall>i. state_of s' i = (if i \<in> set ps then Some Cancelled else state_of s1 i)"
    using Cons.IH by blast
  with bc st1 show ?case by auto
qed

lemma check_occupied_store: "check_occupied s l = Return r s' \<Longrightarrow> s' = s"
  by (auto simp: check_occupied_def split: val.splits option.splits if_splits)

lemma get_closest_parent_id_store: "get_closest_parent_id s l u = Return r s' \<Longrightarrow> s' = s"
  by (auto simp: get_closest_parent_id_def split: val.splits sum.splits)

lemma get_closest_parent_id_store_raise: "get_closest_parent_id s l u = Raise e s' \<Longrightarrow> s' = s"
  by (auto simp: get_closest_parent_id_def split: val.splits sum.splits)

lemma get_by_patient_id_store: "get_by_patient_id s p x = Return r s' \<Longrightarrow> s' = s"
  by (auto simp: get_by_patient_id_def Let_def split: if_splits)

lemma swap_beds_submit_store:
  "swap_beds_submit s p vs = Return r s' \<Longrightarrow> base_submit s p vs = Return r s'"
  unfolding swap_beds_submit_def Let_def
  by (auto split: res.splits if_splits dest!: check_occupied_store get_closest_parent_id_store)

lemma activity_submit_location:
  "activity_submit s p [(Location_id, v)] = Return r s' \<Longrightarrow> base_submit s p [(Location_id, v)] = Return r s'"
  unfolding activity_submit_def
  by (auto simp: patient_move_submit_def placement_submit_def discharge_submit_def admission_submit_def
       split: option.splits data_model.splits if_splits val.splits dest: swap_beds_submit_store)






lemma write_patient_ReturnE:
  "write_patient s p v = Return r s' \<Longrightarrow>
   \<exists>ps tr. s' = s\<lparr>patients := ps, trace := tr\<rparr>"
  apply (auto simp: write_patient_def split: val.splits option.splits)
  apply (rule exI[of _ "patients s"], rule exI[of _ "trace s"], simp)+
  done

lemma data_of_patients_trace [simp]: "data_of (s\<lparr>patients := ps, trace := tr\<rparr>) = data_of s"
  by (simp add: data_of_def fun_eq_iff)

lemma parent_of_patients_trace [simp]: "parent_of (s\<lparr>patients := ps, trace := tr\<rparr>) = parent_of s"
  by (simp add: parent_of_def fun_eq_iff)

lemma state_of_patients_trace [simp]: "state_of (s\<lparr>patients := ps, trace := tr\<rparr>) = state_of s"
  by (simp add: state_of_def fun_eq_iff)

lemma patient_move_complete_ReturnD:
  assumes "patient_move_complete s aid = Return r s'"
  shows "\<exists>a s2 s3 s4. browse (activities s) aid = Some a \<and> truthy (data_ref a Location_id) \<and>
     write_patient (write_data s aid From_location_id (last_location s (data_ref a Patient_id)))
        (data_ref a Patient_id) (data_ref a Location_id) = Return True s2 \<and>
     (case parent_id a of None \<Rightarrow> s3 = s2
      | Some p \<Rightarrow> browse (activities s2) p \<noteq> None \<and> s3 = submitted s2 p [(Location_id, data_ref a Location_id)]) \<and>
     s4 = (if \<not> truthy (data_ref a Move_datetime) then write_data s3 aid Move_datetime (Datetime (now s3)) else s3) \<and>
     \<not> terminal (state a) \<and>
     s' = transitioned s4 aid Completed (Ev_complete aid)"
proof -
  from assms obtain a where a: "browse (activities s) aid = Some a" "truthy (data_ref a Location_id)"
    by (auto simp: patient_move_complete_def split: option.splits if_splits)
  define s1 where "s1 = write_data s aid From_location_id (last_location s (data_ref a Patient_id))"
  have d1: "data_of s1 aid f = (if f = From_location_id then last_location s (data_ref a Patient_id) else data_ref a f)" for f
    using a by (simp add: s1_def data_of_write_data) (simp add: data_of_def)
  have p1: "parent_of s1 aid = parent_id a"
    using a by (simp add: s1_def parent_of_write_data) (simp add: parent_of_def)
  from assms a obtain s2 where s2: "write_patient s1 (data_ref a Patient_id) (data_ref a Location_id) = Return True s2"
    by (auto simp: patient_move_complete_def Let_def last_location_def[symmetric] s1_def[symmetric] d1
         split: res.splits dest: write_patient_Return)
  from write_patient_ReturnE[OF s2] obtain ps tr where s2eq: "s2 = s1\<lparr>patients := ps, trace := tr\<rparr>" by blast
  have d2: "data_of s2 = data_of s1" and p2: "parent_of s2 = parent_of s1" and st2: "state_of s2 = state_of s1"
    by (simp_all add: s2eq)
  define sub where "sub = (case parent_id a of None \<Rightarrow> Return True s2
       | Some p \<Rightarrow> activity_submit s2 p [(Location_id, data_ref a Location_id)])"
  have eq: "patient_move_complete s aid =
     (case sub of Raise e s3 \<Rightarrow> Raise e s3
      | Return _ s3 \<Rightarrow> base_complete (if \<not> truthy (data_of s3 aid Move_datetime)
           then write_data s3 aid Move_datetime (Datetime (now s3)) else s3) aid)"
    using a s2 by (simp add: patient_move_complete_def Let_def last_location_def[symmetric] s1_def[symmetric]
         d1 d2 p2 p1 sub_def cong: res.case_cong option.case_cong)
  from assms eq obtain x s3 where sub: "sub = Return x s3"
     and bc: "base_complete (if \<not> truthy (data_of s3 aid Move_datetime)
           then write_data s3 aid Move_datetime (Datetime (now s3)) else s3) aid = Return r s'"
    by (cases sub) auto
  have s3: "(case parent_id a of None \<Rightarrow> Return True s2
       | Some p \<Rightarrow> activity_submit s2 p [(Location_id, data_ref a Location_id)]) = Return x s3"
    using sub by (simp add: sub_def)
  have s3eq: "(case parent_id a of None \<Rightarrow> s3 = s2
      | Some p \<Rightarrow> browse (activities s2) p \<noteq> None \<and> s3 = submitted s2 p [(Location_id, data_ref a Location_id)])"
    using s3 by (auto split: option.splits dest!: activity_submit_location simp: base_submit_Return)
  have d3: "data_of s3 aid Move_datetime = data_ref a Move_datetime"
    using s3eq by (auto split: option.splits simp: data_of_submitted d2 d1)
  have b3: "\<exists>a'. browse (activities s3) aid = Some a' \<and> state a' = state a"
    using s3eq a by (auto split: option.splits simp: s2eq s1_def submitted_def write_data_def browse_write_rec)
  define s4 where "s4 = (if \<not> truthy (data_ref a Move_datetime) then write_data s3 aid Move_datetime (Datetime (now s3)) else s3)"
  have b4: "\<exists>a'. browse (activities s4) aid = Some a' \<and> state a' = state a"
    using b3 by (auto simp: s4_def write_data_def browse_write_rec)
  have "base_complete s4 aid = Return r s'" using bc by (simp add: d3 s4_def)
  then have "\<not> terminal (state a)" "s' = transitioned s4 aid Completed (Ev_complete aid)"
    using b4 by (auto simp: base_complete_Return)
  with a s2 s3eq s4_def show ?thesis unfolding s1_def by blast
qed


lemma browse_write_data: "browse (activities (write_data s i f v)) j =
  (if j = i then map_option (\<lambda>a. a\<lparr>data_ref := (data_ref a)(f := v)\<rparr>) (browse (activities s) i)
   else browse (activities s) j)"
  by (simp add: write_data_def browse_write_rec)

lemma browse_submitted: "browse (activities (submitted s i vs)) j =
  (if j = i then map_option (\<lambda>a. a\<lparr>data_ref := write_vals (data_ref a) vs\<rparr>) (browse (activities s) i)
   else browse (activities s) j)"
  by (simp add: submitted_def browse_write_rec)

lemma browse_transitioned: "browse (activities (transitioned s i st ev)) j =
  (if j = i then map_option (stamp s st) (browse (activities s) i) else browse (activities s) j)"
  by (simp add: transitioned_def browse_write_rec)

lemma other_write_data [simp]:
  "patients (write_data s i f v) = patients s" "locations (write_data s i f v) = locations s"
  "poss (write_data s i f v) = poss s" "now (write_data s i f v) = now s"
  "trace (write_data s i f v) = trace s @ [Ev_write_data i f]"
  "length (activities (write_data s i f v)) = length (activities s)"
  by (simp_all add: write_data_def length_write_rec)

lemma other_submitted [simp]:
  "patients (submitted s i vs) = patients s" "locations (submitted s i vs) = locations s"
  "poss (submitted s i vs) = poss s" "now (submitted s i vs) = now s"
  "trace (submitted s i vs) = trace s @ [Ev_submit i]"
  "length (activities (submitted s i vs)) = length (activities s)"
  by (simp_all add: submitted_def length_write_rec)

lemma other_transitioned [simp]:
  "patients (transitioned s i st ev) = patients s" "locations (transitioned s i st ev) = locations s"
  "poss (transitioned s i st ev) = poss s" "now (transitioned s i st ev) = now s"
  "trace (transitioned s i st ev) = trace s @ [ev]"
  "length (activities (transitioned s i st ev)) = length (activities s)"
  by (simp_all add: transitioned_def length_write_rec)

lemma map_sequence_write_rec:
  "(\<And>a. sequence (f a) = sequence a) \<Longrightarrow> map sequence (write_rec xs i f) = map sequence xs"
  by (auto simp: write_rec_def map_update list_update_same_conv)

lemma next_sequence_write_data [simp]: "next_sequence (write_data s i f v) = next_sequence s"
  by (simp add: next_sequence_def write_data_def map_sequence_write_rec)

lemma next_sequence_submitted [simp]: "next_sequence (submitted s i vs) = next_sequence s"
  by (simp add: next_sequence_def submitted_def map_sequence_write_rec)

lemma next_sequence_other [simp]:
  "next_sequence (s\<lparr>patients := ps\<rparr>) = next_sequence s"
  "next_sequence (s\<lparr>trace := tr\<rparr>) = next_sequence s"
  by (simp_all add: next_sequence_def)

lemma write_patient_Return_eq:
  "write_patient s p v = Return r s' \<Longrightarrow>
   s' = (case p of Ref pid \<Rightarrow> s\<lparr>patients := write_rec (patients s) pid (\<lambda>r. r\<lparr>current_location_id := v\<rparr>),
                              trace := trace s @ [Ev_write_patient pid]\<rparr> | _ \<Rightarrow> s)"
  by (auto simp: write_patient_def split: val.splits option.splits)

lemma patient_move_complete_effect:
  assumes "patient_move_complete s aid = Return r s'"
  shows "\<exists>a. browse (activities s) aid = Some a \<and> truthy (data_ref a Location_id) \<and> \<not> terminal (state a) \<and>
    (\<forall>j f. data_of s' j f =
        (if j = aid \<and> f = From_location_id then last_location s (data_ref a Patient_id)
         else if j = aid \<and> f = Move_datetime \<and> \<not> truthy (data_ref a Move_datetime) then Datetime (now s)
         else if parent_id a = Some j \<and> f = Location_id then data_ref a Location_id
         else data_of s j f)) \<and>
    (\<forall>j. state_of s' j = (if j = aid then Some Completed else state_of s j)) \<and>
    (\<forall>j. sequence_of s' j = (if j = aid then next_sequence s else sequence_of s j)) \<and>
    (\<forall>j. terminated_of s' j = (if j = aid then Some (now s) else terminated_of s j)) \<and>
    parent_of s' = parent_of s \<and> creator_of s' = creator_of s \<and> model_of s' = model_of s \<and>
    length (activities s') = length (activities s) \<and>
    patients s' = (case data_ref a Patient_id of
                     Ref p \<Rightarrow> write_rec (patients s) p (\<lambda>r. r\<lparr>current_location_id := data_ref a Location_id\<rparr>)
                   | _ \<Rightarrow> patients s) \<and>
    locations s' = locations s \<and> poss s' = poss s \<and> now s' = now s \<and>
    trace s' = trace s @ [Ev_write_data aid From_location_id] @
       (case data_ref a Patient_id of Ref p \<Rightarrow> [Ev_write_patient p] | _ \<Rightarrow> []) @
       (case parent_id a of Some p \<Rightarrow> [Ev_submit p] | None \<Rightarrow> []) @
       (if \<not> truthy (data_ref a Move_datetime) then [Ev_write_data aid Move_datetime] else []) @
       [Ev_complete aid]"
proof -
  from patient_move_complete_ReturnD[OF assms] obtain a s2 s3 s4 where
    a: "browse (activities s) aid = Some a" "truthy (data_ref a Location_id)" "\<not> terminal (state a)"
    and s2: "write_patient (write_data s aid From_location_id (last_location s (data_ref a Patient_id)))
        (data_ref a Patient_id) (data_ref a Location_id) = Return True s2"
    and s3: "(case parent_id a of None \<Rightarrow> s3 = s2
      | Some p \<Rightarrow> browse (activities s2) p \<noteq> None \<and> s3 = submitted s2 p [(Location_id, data_ref a Location_id)])"
    and s4: "s4 = (if \<not> truthy (data_ref a Move_datetime) then write_data s3 aid Move_datetime (Datetime (now s3)) else s3)"
    and s': "s' = transitioned s4 aid Completed (Ev_complete aid)"
    by blast
  note s2eq = write_patient_Return_eq[OF s2]
  have rows: "browse (activities s') j =
     map_option (\<lambda>x.
        (let x1 = (if j = aid then x\<lparr>data_ref := (data_ref x)(From_location_id := last_location s (data_ref a Patient_id))\<rparr> else x);
             x2 = (if parent_id a = Some j then x1\<lparr>data_ref := write_vals (data_ref x1) [(Location_id, data_ref a Location_id)]\<rparr> else x1);
             x3 = (if j = aid \<and> \<not> truthy (data_ref a Move_datetime) then x2\<lparr>data_ref := (data_ref x2)(Move_datetime := Datetime (now s))\<rparr> else x2)
         in if j = aid then stamp s Completed x3 else x3)) (browse (activities s) j)" for j
    using s3 a
    apply (cases "parent_id a"; cases "data_ref a Patient_id"; cases "browse (activities s) j")
    apply (auto simp: s' s4 s2eq browse_transitioned browse_write_data browse_submitted stamp_def Let_def)
    done
  have ex2: "browse (activities s2) j = None \<longleftrightarrow> browse (activities s) j = None" for j
    by (cases "data_ref a Patient_id") (auto simp: s2eq browse_write_data)
  show ?thesis
    apply (rule exI[of _ a])
    apply (intro conjI allI)
    subgoal by (rule a)
    subgoal by (rule a)
    subgoal by (rule a)
    subgoal for j f using a s3 ex2[of j] by (cases "browse (activities s) j") (auto simp: data_of_def rows Let_def write_vals_def split: option.splits)
    subgoal for j using a by (cases "browse (activities s) j") (auto simp: state_of_def rows Let_def)
    subgoal for j using a by (cases "browse (activities s) j") (auto simp: sequence_of_def rows Let_def)
    subgoal for j using a by (cases "browse (activities s) j") (auto simp: terminated_of_def rows Let_def terminal_def)
    subgoal by (rule ext, case_tac "browse (activities s) x") (auto simp: parent_of_def rows Let_def)
    subgoal by (rule ext, case_tac "browse (activities s) x") (auto simp: creator_of_def rows Let_def)
    subgoal by (rule ext, case_tac "browse (activities s) x") (auto simp: model_of_def rows Let_def)
    subgoal using s3 by (cases "parent_id a"; cases "data_ref a Patient_id") (auto simp: s' s4 s2eq)
    subgoal using s3 by (cases "parent_id a"; cases "data_ref a Patient_id") (auto simp: s' s4 s2eq)
    subgoal using s3 by (cases "parent_id a"; cases "data_ref a Patient_id") (auto simp: s' s4 s2eq)
    subgoal using s3 by (cases "parent_id a"; cases "data_ref a Patient_id") (auto simp: s' s4 s2eq)
    subgoal using s3 by (cases "parent_id a"; cases "data_ref a Patient_id") (auto simp: s' s4 s2eq)
    subgoal using s3 by (cases "parent_id a"; cases "data_ref a Patient_id") (auto simp: s' s4 s2eq)
    done
qed

subsection \<open>Placement: a single open placement per patient\<close>

text \<open>
  Claim C1. Creating a placement for patient \<open>p\<close>, with the required suggested
  location, always returns. Afterwards every placement of \<open>p\<close> that was open before
  (state neither completed nor cancelled) is cancelled, every other activity keeps its
  state, and the new placement is in its first, open state.
\<close>

theorem placement_create_single_open:
  assumes "map_of vs Patient_id = Some (Ref p)"
      and "map_of vs Suggested_location_id = Some (Ref l)"
  shows "\<exists>s'. placement_create s vals_activity vs = Return (Suc (length (activities s))) s' \<and>
     state_of s' (Suc (length (activities s))) = Some Draft \<and>
     (\<forall>i a. browse (activities s) i = Some a \<and> data_model a = Placement \<and>
            data_ref a Patient_id = Ref p \<and> state a \<notin> {Completed, Cancelled}
            \<longrightarrow> state_of s' i = Some Cancelled) \<and>
     (\<forall>i a. browse (activities s) i = Some a \<and>
            \<not> (data_model a = Placement \<and> data_ref a Patient_id = Ref p \<and> state a \<notin> {Completed, Cancelled})
            \<longrightarrow> state_of s' i = Some (state a))"
proof -
  define new where "new = Suc (length (activities s))"
  define a0 where "a0 = new_row Placement vals_activity vs"
  define s1 where "s1 = created Placement s vals_activity vs"
  have s1: "activities s1 = activities s @ [a0]"
    by (simp add: s1_def created_def a0_def)
  have cr: "create_activity Placement s vals_activity vs = Return new s1"
    by (simp add: create_activity_def new_def s1_def)
  let ?P = "\<lambda>a. data_model a = Placement \<and> data_ref a Patient_id = Ref p \<and>
                 state a \<notin> {Completed, Cancelled}"
  have Pa0: "?P a0" using assms by (simp add: a0_def new_row_def write_vals_def)
  have op1: "open_placements s1 (Ref p) = open_placements s (Ref p) @ [new]"
    using Pa0 by (simp add: open_placements_def s1 search_append new_def)
  have notnew: "\<forall>i\<in>set (open_placements s (Ref p)). i \<noteq> new"
    by (auto simp: open_placements_def in_search new_def)
  then have flt: "filter (\<lambda>q. q \<noteq> new) (open_placements s1 (Ref p)) = open_placements s (Ref p)"
    by (simp add: op1 filter_id_conv)
  have cop: "cancel_open_placements s1 (Ref p) (Some new) = cancel_each s1 (open_placements s (Ref p))"
    by (simp add: cancel_open_placements_def flt)
  have d: "distinct (open_placements s (Ref p))"
    by (simp add: open_placements_def distinct_search)
  have ex: "\<forall>i\<in>set (open_placements s (Ref p)). \<exists>a. browse (activities s1) i = Some a \<and> state a \<noteq> Cancelled"
    by (auto simp: open_placements_def in_search s1 browse_append_old)
  from cancel_each_ok[OF d ex] obtain s' where s':
     "cancel_each s1 (open_placements s (Ref p)) = Return True s'"
     "\<forall>i. state_of s' i = (if i \<in> set (open_placements s (Ref p)) then Some Cancelled else state_of s1 i)"
    by blast
  have pc: "placement_create s vals_activity vs = Return new s'"
    using assms cr cop s' by (simp add: placement_create_def)
  have st_new: "state_of s' new = Some Draft"
    using s'(2) notnew by (auto simp: state_of_def s1 browse_append_new new_def a0_def new_row_def)
  have old: "state_of s1 i = Some (state a)" if "browse (activities s) i = Some a" for i a
    using that by (simp add: state_of_def s1 browse_append_old)
  have mem: "i \<in> set (open_placements s (Ref p)) \<longleftrightarrow> ?P a" if "browse (activities s) i = Some a" for i a
    using that by (auto simp: open_placements_def in_search)
  show ?thesis
    using pc st_new s'(2) old mem unfolding new_def by auto
qed

theorem placement_create_single_open_witness:
  "\<exists>s'. placement_create hospital (None, None) [(Patient_id, Ref 1), (Suggested_location_id, Ref 1)]
          = Return 12 s' \<and>
        state_of s' 12 = Some Draft \<and> state_of s' 5 = Some Cancelled \<and> state_of s' 9 = Some Draft"
proof -
  let ?vs = "[(Patient_id, Ref 1), (Suggested_location_id, Ref 1)]"
  have len: "Suc (length (activities hospital)) = 12"
    by (simp add: hospital_def)
  have b5: "browse (activities hospital) 5 =
      Some (row Placement Draft (Some 1) 0
              [(Patient_id, Ref 1), (Suggested_location_id, Ref 1), (Location_id, Ref 4)])"
    by (simp add: hospital_def browse_def)
  have b9: "browse (activities hospital) 9 =
      Some (row Placement Draft None 0
              [(Patient_id, Ref 3), (Suggested_location_id, Ref 5), (Location_id, Ref 4)])"
    by (simp add: hospital_def browse_def)
  have "map_of ?vs Patient_id = Some (Ref 1)" "map_of ?vs Suggested_location_id = Some (Ref 1)"
    by simp_all
  from placement_create_single_open [OF this, of hospital "(None, None)"]
  obtain s' where s':
    "placement_create hospital (None, None) ?vs = Return 12 s'"
    "state_of s' 12 = Some Draft"
    "\<forall>i a. browse (activities hospital) i = Some a \<and> data_model a = Placement \<and>
            data_ref a Patient_id = Ref 1 \<and> state a \<notin> {Completed, Cancelled}
            \<longrightarrow> state_of s' i = Some Cancelled"
    "\<forall>i a. browse (activities hospital) i = Some a \<and>
            \<not> (data_model a = Placement \<and> data_ref a Patient_id = Ref 1 \<and> state a \<notin> {Completed, Cancelled})
            \<longrightarrow> state_of s' i = Some (state a)"
    unfolding len by blast
  have "state_of s' 5 = Some Cancelled"
    using s'(3) [rule_format, of 5] b5 by (simp add: row_def write_vals_def)
  moreover have "state_of s' 9 = Some Draft"
    using s'(4) [rule_format, of 9] b9 by (simp add: row_def write_vals_def)
  ultimately show ?thesis
    using s'(1,2) by blast
qed

subsection \<open>Movement: the last completed movement of a patient\<close>






lemmas move_defs = patient_move_complete_def completed_moves_def activity_submit_def store_of_def
  completed_move_of_def model_of_def

subsection \<open>Movement: the default timestamp and the base completion\<close>

text \<open>
  Claim C9 as stated: within movement completion the base completion call precedes the
  write of the default \<^verbatim>\<open>move_datetime\<close>. On the pending movement 8 of the
  hospital, which has no \<^verbatim>\<open>move_datetime\<close>, the write is the fourth call and the
  base completion the fifth and last.
\<close>

theorem move_complete_backfill_order_counterexample:
  "data_of hospital 8 Move_datetime = Unset \<and>
   patient_move_complete hospital 8 = Return True (store_of (patient_move_complete hospital 8)) \<and>
   trace (store_of (patient_move_complete hospital 8)) =
     [Ev_write_data 8 From_location_id, Ev_write_patient 1, Ev_submit 1,
      Ev_write_data 8 Move_datetime, Ev_complete 8] \<and>
   \<not> precedes (Ev_complete 8) (Ev_write_data 8 Move_datetime)
        (trace (store_of (patient_move_complete hospital 8)))"
  by (simp add: precedes_def move_defs store_defs)

text \<open>
  Claim C9, amended. When the movement has no \<^verbatim>\<open>move_datetime\<close>, the current
  timestamp is written while the activity is not yet completed, and that write is
  directly followed by the base completion, the last call of
  \<^verbatim>\<open>nh_clinical_patient_move.complete\<close>. When a \<^verbatim>\<open>move_datetime\<close> was supplied
  it is kept and no such write is made.
\<close>

theorem move_complete_backfill_order:
  assumes "patient_move_complete s aid = Return r s'"
  shows "(\<not> truthy (data_of s aid Move_datetime) \<longrightarrow>
            data_of s' aid Move_datetime = Datetime (now s) \<and>
            (\<exists>before. trace s' = trace s @ before @ [Ev_write_data aid Move_datetime, Ev_complete aid])) \<and>
         (truthy (data_of s aid Move_datetime) \<longrightarrow>
            data_of s' aid Move_datetime = data_of s aid Move_datetime \<and>
            (\<exists>before. trace s' = trace s @ before @ [Ev_complete aid] \<and>
                      Ev_write_data aid Move_datetime \<notin> set before)) \<and>
         state_of s aid \<noteq> Some Completed \<and> state_of s' aid = Some Completed"
proof -
  from patient_move_complete_effect[OF assms] obtain a where
    a: "browse (activities s) aid = Some a" "\<not> terminal (state a)"
    and d: "\<forall>j f. data_of s' j f =
        (if j = aid \<and> f = From_location_id then last_location s (data_ref a Patient_id)
         else if j = aid \<and> f = Move_datetime \<and> \<not> truthy (data_ref a Move_datetime) then Datetime (now s)
         else if parent_id a = Some j \<and> f = Location_id then data_ref a Location_id
         else data_of s j f)"
    and st: "\<forall>j. state_of s' j = (if j = aid then Some Completed else state_of s j)"
    and tr: "trace s' = trace s @ [Ev_write_data aid From_location_id] @
       (case data_ref a Patient_id of Ref p \<Rightarrow> [Ev_write_patient p] | _ \<Rightarrow> []) @
       (case parent_id a of Some p \<Rightarrow> [Ev_submit p] | None \<Rightarrow> []) @
       (if \<not> truthy (data_ref a Move_datetime) then [Ev_write_data aid Move_datetime] else []) @
       [Ev_complete aid]"
    by blast
  have md: "data_of s aid Move_datetime = data_ref a Move_datetime"
    using a by (simp add: data_of_def)
  have "\<not> truthy (data_ref a Move_datetime) \<longrightarrow>
      (\<exists>before. trace s' = trace s @ before @ [Ev_write_data aid Move_datetime, Ev_complete aid])"
    using tr by (auto intro!: exI[of _ "[Ev_write_data aid From_location_id] @
       (case data_ref a Patient_id of Ref p \<Rightarrow> [Ev_write_patient p] | _ \<Rightarrow> []) @
       (case parent_id a of Some p \<Rightarrow> [Ev_submit p] | None \<Rightarrow> [])"])
  moreover have "truthy (data_ref a Move_datetime) \<longrightarrow>
      (\<exists>before. trace s' = trace s @ before @ [Ev_complete aid] \<and>
                      Ev_write_data aid Move_datetime \<notin> set before)"
    using tr by (auto intro!: exI[of _ "[Ev_write_data aid From_location_id] @
       (case data_ref a Patient_id of Ref p \<Rightarrow> [Ev_write_patient p] | _ \<Rightarrow> []) @
       (case parent_id a of Some p \<Rightarrow> [Ev_submit p] | None \<Rightarrow> [])"] split: val.splits option.splits)
  moreover have "state_of s aid \<noteq> Some Completed"
    using a by (auto simp: state_of_def terminal_def)
  ultimately show ?thesis
    using d st by (simp add: md)
qed

theorem move_complete_backfill_order_witness:
  "\<exists>s'. patient_move_complete hospital 8 = Return True s' \<and>
        data_of s' 8 Move_datetime = Datetime 100 \<and>
        (\<exists>before. trace s' = trace hospital @ before @ [Ev_write_data 8 Move_datetime, Ev_complete 8]) \<and>
        state_of s' 8 = Some Completed"
proof -
  define s' where "s' = store_of (patient_move_complete hospital 8)"
  have r: "patient_move_complete hospital 8 = Return True s'"
    unfolding s'_def by (simp add: move_defs store_defs)
  have u: "\<not> truthy (data_of hospital 8 Move_datetime)" and n: "now hospital = 100"
    by (simp_all add: store_defs)
  from move_complete_backfill_order[OF r] u n r show ?thesis
    by auto
qed

subsection \<open>Placement: completion and its two errors\<close>

lemma open_spell_ids_transitioned_empty:
  assumes "open_spell_ids s pat = []"
  shows "open_spell_ids (transitioned s aid Completed ev) pat = []"
proof -
  have "i \<notin> set (open_spell_ids (transitioned s aid Completed ev) pat)" for i
  proof
    assume "i \<in> set (open_spell_ids (transitioned s aid Completed ev) pat)"
    then obtain x where x: "browse (activities (transitioned s aid Completed ev)) i = Some x"
        "data_model x = Spell" "data_ref x Patient_id = pat" "\<not> terminal (state x)"
      by (auto simp: open_spell_ids_def in_search)
    then have "i \<noteq> aid"
      by (auto simp: browse_transitioned terminal_def)
    with x have "i \<in> set (open_spell_ids s pat)"
      by (auto simp: open_spell_ids_def in_search browse_transitioned)
    with assms show False by simp
  qed
  then show ?thesis by (meson last_in_set)
qed

text \<open>
  Claim C10. For a placement without location, completion raises before anything is
  written: the store of the error is the store it started from. For a placement with a
  location, in a state the base completion accepts, whose patient has no open spell,
  completion raises "No open spell found" and the store of that error already has the
  placement activity completed.
\<close>

theorem placement_complete_not_atomic:
  assumes "browse (activities s) aid = Some a"
  shows "(\<not> truthy (data_ref a Location_id) \<longrightarrow>
            placement_complete complete s aid = Raise Placement_without_location s) \<and>
         (truthy (data_ref a Location_id) \<and> \<not> terminal (state a) \<and>
          open_spell_ids s (data_ref a Patient_id) = [] \<longrightarrow>
            (\<exists>s'. placement_complete complete s aid = Raise (No_open_spell (data_ref a Patient_id)) s' \<and>
                  s' = transitioned s aid Completed (Ev_complete aid) \<and>
                  state_of s' aid = Some Completed \<and> state_of s aid \<noteq> Some Completed))"
proof (intro conjI impI)
  assume "\<not> truthy (data_ref a Location_id)"
  then show "placement_complete complete s aid = Raise Placement_without_location s"
    using assms by (simp add: placement_complete_def)
next
  assume h: "truthy (data_ref a Location_id) \<and> \<not> terminal (state a) \<and>
          open_spell_ids s (data_ref a Patient_id) = []"
  define s1 where "s1 = transitioned s aid Completed (Ev_complete aid)"
  have bc: "base_complete s aid = Return True s1"
    using assms h by (simp add: base_complete_def s1_def)
  have p: "data_of s1 aid Patient_id = data_ref a Patient_id"
    using assms by (simp add: s1_def data_of_transitioned) (simp add: data_of_def)
  have "open_spell_ids s1 (data_ref a Patient_id) = []"
    unfolding s1_def using h by (intro open_spell_ids_transitioned_empty) simp
  then have g: "get_by_patient_id s1 (data_ref a Patient_id) No_check = Return None s1"
    by (simp add: get_by_patient_id_def first_or_false_def)
  have "placement_complete complete s aid = Raise (No_open_spell (data_ref a Patient_id)) s1"
    using assms h bc g by (simp add: placement_complete_def p Let_def)
  moreover have "state_of s1 aid = Some Completed"
    using assms by (simp add: s1_def state_of_transitioned)
  moreover have "state_of s aid \<noteq> Some Completed"
    using assms h by (auto simp: state_of_def terminal_def)
  ultimately show "\<exists>s'. placement_complete complete s aid = Raise (No_open_spell (data_ref a Patient_id)) s' \<and>
                  s' = transitioned s aid Completed (Ev_complete aid) \<and>
                  state_of s' aid = Some Completed \<and> state_of s aid \<noteq> Some Completed"
    by (simp add: s1_def)
qed

theorem placement_complete_not_atomic_witness:
  "placement_complete (activity_complete 1) (submitted hospital 9 [(Location_id, Unset)]) 9
     = Raise Placement_without_location (submitted hospital 9 [(Location_id, Unset)]) \<and>
   placement_complete (activity_complete 1) hospital 9
     = Raise (No_open_spell (Ref 3)) (transitioned hospital 9 Completed (Ev_complete 9)) \<and>
   state_of (transitioned hospital 9 Completed (Ev_complete 9)) 9 = Some Completed \<and>
   state_of hospital 9 = Some Draft"
proof -
  let ?a = "row Placement Draft None 0
              [(Patient_id, Ref 3), (Suggested_location_id, Ref 5), (Location_id, Ref 4)]"
  let ?s0 = "submitted hospital 9 [(Location_id, Unset)]"
  have b: "browse (activities hospital) 9 = Some ?a"
    by (simp add: hospital_def browse_def)
  obtain a0 where b0: "browse (activities ?s0) 9 = Some a0" and u0: "\<not> truthy (data_ref a0 Location_id)"
    by (simp add: browse_submitted b row_def write_vals_def)
  have "placement_complete (activity_complete 1) ?s0 9 = Raise Placement_without_location ?s0"
    using placement_complete_not_atomic[OF b0, of "activity_complete 1"] u0
    by simp
  moreover have "open_spell_ids hospital (Ref 3) = []"
    by (simp add: store_defs)
  then have "placement_complete (activity_complete 1) hospital 9
     = Raise (No_open_spell (Ref 3)) (transitioned hospital 9 Completed (Ev_complete 9)) \<and>
     state_of (transitioned hospital 9 Completed (Ev_complete 9)) 9 = Some Completed"
    using placement_complete_not_atomic[OF b, of "activity_complete 1"]
    by (simp add: row_def write_vals_def terminal_def)
  moreover have "state_of hospital 9 = Some Draft"
    by (simp add: store_defs)
  ultimately show ?thesis by blast
qed

subsection \<open>Admission: submit\<close>

lemma open_spell_exists_iff:
  "(\<exists>i x. browse (activities s) i = Some x \<and> data_model x = Spell \<and>
          data_ref x Patient_id = p \<and> \<not> terminal (state x)) \<longleftrightarrow> open_spell_ids s p \<noteq> []"
proof -
  have "(\<exists>i. i \<in> set (open_spell_ids s p)) \<longleftrightarrow> open_spell_ids s p \<noteq> []"
    by (cases "open_spell_ids s p") auto
  then show ?thesis
    by (auto simp: open_spell_ids_def in_search)
qed

text \<open>
  Claim C5. Admission submit raises "Patient required for admission" when
  \<^verbatim>\<open>patient_id\<close> is not a key of the submitted values; raises the registry's
  "already admitted" error when the patient has an open spell; and for a patient without
  open spell returns, having written the values through the base submit.
\<close>

theorem admission_submit_checks:
  "(map_of vs Patient_id = None \<longrightarrow>
      admission_submit s aid vs = Raise Patient_required_for_admission s) \<and>
   (\<forall>p. map_of vs Patient_id = Some p \<and>
        (\<exists>i x. browse (activities s) i = Some x \<and> data_model x = Spell \<and>
               data_ref x Patient_id = p \<and> \<not> terminal (state x)) \<longrightarrow>
      admission_submit s aid vs = Raise (Already_admitted p) s) \<and>
   (\<forall>p. map_of vs Patient_id = Some p \<and>
        \<not> (\<exists>i x. browse (activities s) i = Some x \<and> data_model x = Spell \<and>
               data_ref x Patient_id = p \<and> \<not> terminal (state x)) \<and>
        browse (activities s) aid \<noteq> None \<longrightarrow>
      admission_submit s aid vs = Return True (submitted s aid vs))"
  unfolding open_spell_exists_iff
  by (auto simp: admission_submit_def get_by_patient_id_def base_submit_def Let_def split: option.splits)

theorem admission_submit_checks_witness:
  "admission_submit hospital 10 [(Location_id, Ref 1)] = Raise Patient_required_for_admission hospital \<and>
   admission_submit hospital 10 [(Patient_id, Ref 1), (Location_id, Ref 1)] = Raise (Already_admitted (Ref 1)) hospital \<and>
   admission_submit hospital 10 [(Patient_id, Ref 3), (Location_id, Ref 5)]
     = Return True (submitted hospital 10 [(Patient_id, Ref 3), (Location_id, Ref 5)])"
proof -
  have b1: "browse (activities hospital) 1 =
     Some (row Spell Started None 1 [(Patient_id, Ref 1), (Location_id, Ref 2), (Pos_id, Ref 1)])"
    by (simp add: hospital_def browse_def)
  have open1: "\<exists>i x. browse (activities hospital) i = Some x \<and> data_model x = Spell \<and>
               data_ref x Patient_id = Ref 1 \<and> \<not> terminal (state x)"
    by (rule exI[of _ 1], rule exI, rule conjI[OF b1]) (simp add: row_def write_vals_def terminal_def)
  have "open_spell_ids hospital (Ref 3) = []"
    by (simp add: store_defs)
  then have none3: "\<not> (\<exists>i x. browse (activities hospital) i = Some x \<and> data_model x = Spell \<and>
               data_ref x Patient_id = Ref 3 \<and> \<not> terminal (state x))"
    by (simp add: open_spell_exists_iff)
  have b10: "browse (activities hospital) 10 \<noteq> None"
    by (simp add: hospital_def browse_def)
  have "admission_submit hospital 10 [(Location_id, Ref 1)] = Raise Patient_required_for_admission hospital"
    using admission_submit_checks[of "[(Location_id, Ref 1)]" hospital 10] by simp
  moreover have "admission_submit hospital 10 [(Patient_id, Ref 1), (Location_id, Ref 1)]
      = Raise (Already_admitted (Ref 1)) hospital"
    using admission_submit_checks[of "[(Patient_id, Ref 1), (Location_id, Ref 1)]" hospital 10] open1
    by simp
  moreover have "admission_submit hospital 10 [(Patient_id, Ref 3), (Location_id, Ref 5)]
     = Return True (submitted hospital 10 [(Patient_id, Ref 3), (Location_id, Ref 5)])"
    using admission_submit_checks[of "[(Patient_id, Ref 3), (Location_id, Ref 5)]" hospital 10] none3 b10
    by simp
  ultimately show ?thesis by blast
qed

subsection \<open>Swap beds: submit\<close>


lemma get_closest_parent_id_Ref:
  "get_closest_parent_id s (Ref l) u =
     (case closest_parent (length (locations s)) (locations s) l u of Inl e \<Rightarrow> Raise e s | Inr w \<Rightarrow> Return w s)"
  by (simp add: get_closest_parent_id_def)





subsection \<open>Swap beds: complete\<close>

lemma browse_created: "browse (activities (created m s va vs)) j =
  (if j = Suc (length (activities s)) then Some (new_row m va vs) else browse (activities s) j)"
  by (simp add: created_def browse_append_new)

lemma other_created [simp]:
  "patients (created m s va vs) = patients s" "locations (created m s va vs) = locations s"
  "poss (created m s va vs) = poss s" "now (created m s va vs) = now s"
  "trace (created m s va vs) = trace s @ [Ev_create (Suc (length (activities s)))]"
  "length (activities (created m s va vs)) = Suc (length (activities s))"
  by (simp_all add: created_def)

lemma new_row_simps [simp]:
  "data_model (new_row m va vs) = m" "state (new_row m va vs) = Draft"
  "parent_id (new_row m va vs) = fst va" "creator_id (new_row m va vs) = snd va"
  "sequence (new_row m va vs) = 0" "date_terminated (new_row m va vs) = None"
  "data_ref (new_row m va vs) f = (case map_of vs f of None \<Rightarrow> Unset | Some v \<Rightarrow> v)"
  by (simp_all add: new_row_def write_vals_def)

lemma current_location_write_rec:
  "current_location (s\<lparr>patients := write_rec (patients s) p (\<lambda>r. r\<lparr>current_location_id := v\<rparr>)\<rparr>) q =
     (if q = p \<and> browse (patients s) p \<noteq> None then v else current_location s q)"
  by (cases "browse (patients s) q") (auto simp: current_location_def browse_write_rec)

lemma patient_move_complete_current_location:
  assumes "patient_move_complete s aid = Return r s'"
  shows "\<forall>q. current_location s' q =
           (if data_of s aid Patient_id = Ref q then data_of s aid Location_id else current_location s q)"
proof -
  from patient_move_complete_ReturnD[OF assms] obtain a s2 where
    a: "browse (activities s) aid = Some a"
    and s2: "write_patient (write_data s aid From_location_id (last_location s (data_ref a Patient_id)))
        (data_ref a Patient_id) (data_ref a Location_id) = Return True s2"
    by blast
  from patient_move_complete_effect[OF assms] a have
    ps: "patients s' = (case data_ref a Patient_id of
                     Ref p \<Rightarrow> write_rec (patients s) p (\<lambda>r. r\<lparr>current_location_id := data_ref a Location_id\<rparr>)
                   | _ \<Rightarrow> patients s)"
    by auto
  have ex: "data_ref a Patient_id = Ref p \<Longrightarrow> browse (patients s) p \<noteq> None" for p
    using s2 by (auto simp: write_patient_def split: option.splits)
  have d: "data_of s aid f = data_ref a f" for f
    using a by (simp add: data_of_def)
  show ?thesis
  proof
    fix q
    show "current_location s' q =
           (if data_of s aid Patient_id = Ref q then data_of s aid Location_id else current_location s q)"
      using ex[of q] ps
      by (cases "data_ref a Patient_id"; cases "browse (patients s) q")
         (auto simp: current_location_def d browse_write_rec)
  qed
qed

lemma activity_complete_move:
  "model_of s m = Some Patient_move \<Longrightarrow> activity_complete (Suc n) s m = patient_move_complete s m"
  by (auto simp: model_of_def split: option.splits)

lemma first_patient_eq:
  "browse (locations s) l = Some loc \<Longrightarrow> patient_ids loc = p # ps \<Longrightarrow> first_patient s (Ref l) = Return p s"
  by (simp add: first_patient_def)

lemma get_by_patient_id_No_check:
  "get_by_patient_id s p No_check = Return (first_or_false (open_spell_ids s p)) s"
  by (simp add: get_by_patient_id_def)

lemma open_spell_le: "first_or_false (open_spell_ids s p) = Some i \<Longrightarrow> 0 < i \<and> i \<le> length (activities s)"
proof -
  assume "first_or_false (open_spell_ids s p) = Some i"
  then have "i \<in> set (open_spell_ids s p)"
    by (auto simp: first_or_false_def split: list.splits)
  then show ?thesis
    by (auto simp: open_spell_ids_def in_search dest: browse_SomeD)
qed


lemma model_of_transitioned: "model_of (transitioned s i st ev) = model_of s"
  by (rule ext, case_tac "browse (activities s) x") (auto simp: model_of_def browse_transitioned)

lemma creator_of_transitioned: "creator_of (transitioned s i st ev) = creator_of s"
  by (rule ext, case_tac "browse (activities s) x") (auto simp: creator_of_def browse_transitioned)

lemma terminated_of_transitioned: "terminated_of (transitioned s i st ev) j =
   (if j = i \<and> browse (activities s) i \<noteq> None \<and> terminal st then Some (now s) else terminated_of s j)"
  by (cases "browse (activities s) j") (auto simp: terminated_of_def browse_transitioned)

lemmas created_obs = data_of_def state_of_def parent_of_def creator_of_def model_of_def
  sequence_of_def terminated_of_def

text \<open>
  Claim C3. Let a swap activity name the beds \<open>A\<close> and \<open>B\<close>, whose first occupants
  are the two patients \<open>X\<close> and \<open>Y\<close>. When its completion returns, it has created
  two movements: one of \<open>X\<close> to \<open>B\<close> and one of \<open>Y\<close> to \<open>A\<close>, each with the
  swap activity as creator and with the spell the registry resolves for its patient as
  parent. Both movements are completed, in that order, and the base completion of the
  swap activity is the last call. Afterwards the current location of \<open>X\<close> is \<open>B\<close>
  and that of \<open>Y\<close> is \<open>A\<close>.
\<close>

theorem swap_beds_complete_swaps:
  assumes run: "swap_beds_complete (activity_complete (Suc n)) s aid = Return r s'"
      and l1: "data_of s aid Location1_id = Ref A"
      and l2: "data_of s aid Location2_id = Ref B"
      and lA: "browse (locations s) A = Some locA" and pA: "patient_ids locA = X # xs"
      and lB: "browse (locations s) B = Some locB" and pB: "patient_ids locB = Y # ys"
      and neq: "X \<noteq> Y"
  shows "model_of s' (Suc (length (activities s))) = Some Patient_move \<and>
         data_of s' (Suc (length (activities s))) Patient_id = Ref X \<and>
         data_of s' (Suc (length (activities s))) Location_id = Ref B \<and>
         get_by_patient_id s (Ref X) No_check = Return (parent_of s' (Suc (length (activities s)))) s \<and>
         creator_of s' (Suc (length (activities s))) = Some aid \<and>
         state_of s' (Suc (length (activities s))) = Some Completed \<and>
         model_of s' (Suc (Suc (length (activities s)))) = Some Patient_move \<and>
         data_of s' (Suc (Suc (length (activities s)))) Patient_id = Ref Y \<and>
         data_of s' (Suc (Suc (length (activities s)))) Location_id = Ref A \<and>
         get_by_patient_id s (Ref Y) No_check = Return (parent_of s' (Suc (Suc (length (activities s))))) s \<and>
         creator_of s' (Suc (Suc (length (activities s)))) = Some aid \<and>
         state_of s' (Suc (Suc (length (activities s)))) = Some Completed \<and>
         state_of s' aid = Some Completed \<and>
         current_location s' X = Ref B \<and>
         current_location s' Y = Ref A \<and>
         (\<exists>t1 t2. trace s' = trace s @ [Ev_create (Suc (length (activities s))),
                                       Ev_create (Suc (Suc (length (activities s))))] @
                       t1 @ [Ev_complete (Suc (length (activities s)))] @
                       t2 @ [Ev_complete (Suc (Suc (length (activities s)))), Ev_complete aid])"
proof -
  define m1 where "m1 = Suc (length (activities s))"
  define m2 where "m2 = Suc m1"
  define sp1 where "sp1 = first_or_false (open_spell_ids s (Ref X))"
  define sp2 where "sp2 = first_or_false (open_spell_ids s (Ref Y))"
  define s5 where "s5 = created Patient_move s (sp1, Some aid) [(Location_id, Ref B), (Patient_id, Ref X)]"
  define s6 where "s6 = created Patient_move s5 (sp2, Some aid) [(Location_id, Ref A), (Patient_id, Ref Y)]"
  have len5: "length (activities s5) = m1" by (simp add: s5_def m1_def)
  have sp1_ne: "sp1 \<noteq> Some m1" "sp1 \<noteq> Some m2"
    using open_spell_le[of s "Ref X"] by (auto simp: sp1_def m1_def m2_def)
  have sp2_ne: "sp2 \<noteq> Some m1" "sp2 \<noteq> Some m2"
    using open_spell_le[of s "Ref Y"] by (auto simp: sp2_def m1_def m2_def)
  have m12: "m1 \<noteq> m2" by (simp add: m2_def)
  have b6: "browse (activities s6) j =
      (if j = m2 then Some (new_row Patient_move (sp2, Some aid) [(Location_id, Ref A), (Patient_id, Ref Y)])
       else if j = m1 then Some (new_row Patient_move (sp1, Some aid) [(Location_id, Ref B), (Patient_id, Ref X)])
       else browse (activities s) j)" for j
    by (simp add: s6_def browse_created len5 m2_def) (simp add: s5_def browse_created m1_def)
  have eq: "swap_beds_complete (activity_complete (Suc n)) s aid =
     (case activity_complete (Suc n) s6 m1 of
           Raise e s7 \<Rightarrow> Raise e s7
         | Return _ s7 \<Rightarrow>
       (case activity_complete (Suc n) s7 m2 of
           Raise e s8 \<Rightarrow> Raise e s8
         | Return _ s8 \<Rightarrow> base_complete s8 aid))"
  proof -
    have fp: "first_patient s (Ref A) = Return X s" "first_patient s (Ref B) = Return Y s"
      by (simp_all add: first_patient_eq[OF lA pA] first_patient_eq[OF lB pB])
    have g: "get_by_patient_id s (Ref X) No_check = Return sp1 s"
            "get_by_patient_id s (Ref Y) No_check = Return sp2 s"
      by (simp_all add: get_by_patient_id_No_check sp1_def sp2_def)
    have cr: "create_activity Patient_move s (sp1, Some aid) [(Location_id, Ref B), (Patient_id, Ref X)]
                = Return m1 s5"
             "create_activity Patient_move s5 (sp2, Some aid) [(Location_id, Ref A), (Patient_id, Ref Y)]
                = Return m2 s6"
      by (simp_all add: create_activity_def s5_def s6_def m1_def m2_def)
    show ?thesis
      by (simp add: swap_beds_complete_def Let_def l1 l2 fp g cr del: activity_complete.simps)
  qed
  have mo6: "model_of s6 m1 = Some Patient_move" "model_of s6 m2 = Some Patient_move"
    using m12 by (simp_all add: model_of_def b6)
  from run eq obtain x7 s7 where c1: "activity_complete (Suc n) s6 m1 = Return x7 s7"
    by (cases "activity_complete (Suc n) s6 m1") auto
  then have r1: "patient_move_complete s6 m1 = Return x7 s7"
    by (simp only: activity_complete_move[OF mo6(1)])
  from run eq c1 obtain x8 s8 where c2: "activity_complete (Suc n) s7 m2 = Return x8 s8"
    by (cases "activity_complete (Suc n) s7 m2") auto
  from run eq c1 c2 have bc: "base_complete s8 aid = Return r s'"
    by (simp del: activity_complete.simps)
  \<comment> \<open>the first movement\<close>
  let ?a = "new_row Patient_move (sp1, Some aid) [(Location_id, Ref B), (Patient_id, Ref X)]"
  from patient_move_complete_effect[OF r1] have e1:
    "\<forall>j f. data_of s7 j f =
        (if j = m1 \<and> f = From_location_id then last_location s6 (Ref X)
         else if j = m1 \<and> f = Move_datetime then Datetime (now s6)
         else if sp1 = Some j \<and> f = Location_id then Ref B
         else data_of s6 j f)"
    "\<forall>j. state_of s7 j = (if j = m1 then Some Completed else state_of s6 j)"
    "parent_of s7 = parent_of s6" "creator_of s7 = creator_of s6" "model_of s7 = model_of s6"
    "trace s7 = trace s6 @ [Ev_write_data m1 From_location_id, Ev_write_patient X] @
       (case sp1 of Some p \<Rightarrow> [Ev_submit p] | None \<Rightarrow> []) @
       [Ev_write_data m1 Move_datetime, Ev_complete m1]"
    using m12 by (auto simp: b6)
  from patient_move_complete_current_location[OF r1] have cl1:
    "\<forall>q. current_location s7 q = (if q = X then Ref B else current_location s6 q)"
    using m12 by (auto simp: data_of_def b6)
  \<comment> \<open>the second movement\<close>
  have mo7: "model_of s7 m2 = Some Patient_move"
    using e1(5) mo6 by simp
  have r2: "patient_move_complete s7 m2 = Return x8 s8"
    using c2 by (simp only: activity_complete_move[OF mo7])
  from patient_move_complete_effect[OF r2] obtain b where
    b: "browse (activities s7) m2 = Some b"
    and e2: "\<forall>j f. data_of s8 j f =
        (if j = m2 \<and> f = From_location_id then last_location s7 (data_ref b Patient_id)
         else if j = m2 \<and> f = Move_datetime \<and> \<not> truthy (data_ref b Move_datetime) then Datetime (now s7)
         else if parent_id b = Some j \<and> f = Location_id then data_ref b Location_id
         else data_of s7 j f)"
      "\<forall>j. state_of s8 j = (if j = m2 then Some Completed else state_of s7 j)"
      "parent_of s8 = parent_of s7" "creator_of s8 = creator_of s7" "model_of s8 = model_of s7"
      "trace s8 = trace s7 @ [Ev_write_data m2 From_location_id] @
       (case data_ref b Patient_id of Ref p \<Rightarrow> [Ev_write_patient p] | _ \<Rightarrow> []) @
       (case parent_id b of Some p \<Rightarrow> [Ev_submit p] | None \<Rightarrow> []) @
       (if \<not> truthy (data_ref b Move_datetime) then [Ev_write_data m2 Move_datetime] else []) @
       [Ev_complete m2]"
    by blast
  have bpar: "parent_id b = sp2"
    using b e1(3) m12 by (metis (no_types, lifting) parent_of_def b6 option.simps(5) new_row_simps(3) fst_conv)
  have d7: "data_of s7 m2 f = data_of s6 m2 f" for f
    using e1(1) m12 sp1_ne by auto
  have bd: "data_ref b f = data_of s6 m2 f" for f
    using b d7[of f] by (simp add: data_of_def)
  have bpat: "data_ref b Patient_id = Ref Y" and bloc: "data_ref b Location_id = Ref A"
    by (simp_all add: bd data_of_def b6)
  from patient_move_complete_current_location[OF r2] have cl2:
    "\<forall>q. current_location s8 q = (if q = Y then Ref A else current_location s7 q)"
    using d7 by (auto simp: data_of_def b6)
  \<comment> \<open>the swap activity itself\<close>
  from bc have s': "s' = transitioned s8 aid Completed (Ev_complete aid)"
    and ex8: "browse (activities s8) aid \<noteq> None"
    by (auto simp: base_complete_Return)
  have aid_ne: "aid \<noteq> m1" "aid \<noteq> m2"
  proof -
    have "state_of s8 m1 = Some Completed" "state_of s8 m2 = Some Completed"
      using e2(2) e1(2) m12 by auto
    moreover have "state_of s8 aid \<noteq> Some Completed"
      using bc by (auto simp: base_complete_Return state_of_def terminal_def)
    ultimately show "aid \<noteq> m1" "aid \<noteq> m2" by auto
  qed
  have cl': "current_location s' q = current_location s8 q" for q
    by (simp add: s' current_location_def)
  have tr': "trace s' = trace s8 @ [Ev_complete aid]"
    by (simp add: s')
  have tr6: "trace s6 = trace s @ [Ev_create m1, Ev_create m2]"
    by (simp add: s6_def s5_def len5 m1_def m2_def)
  have g1: "model_of s' m1 = Some Patient_move" "model_of s' m2 = Some Patient_move"
    using e2(5) e1(5) mo6 by (simp_all add: s' model_of_transitioned)
  have g2: "data_of s' m1 Patient_id = Ref X" "data_of s' m1 Location_id = Ref B"
    using e2(1) e1(1) m12 sp1_ne sp2_ne bpar
    by (simp_all add: s' data_of_transitioned) (simp_all add: data_of_def b6)
  have g3: "data_of s' m2 Patient_id = Ref Y" "data_of s' m2 Location_id = Ref A"
    using e2(1) e1(1) m12 sp1_ne sp2_ne bpar
    by (simp_all add: s' data_of_transitioned) (simp_all add: data_of_def b6)
  have g4: "parent_of s' m1 = sp1" "parent_of s' m2 = sp2"
    using e2(3) e1(3) m12 by (simp_all add: s' parent_of_transitioned) (simp_all add: parent_of_def b6)
  have g5: "creator_of s' m1 = Some aid" "creator_of s' m2 = Some aid"
    using e2(4) e1(4) m12
    by (simp_all add: s' creator_of_transitioned) (simp_all add: creator_of_def b6)
  have g6: "state_of s' m1 = Some Completed" "state_of s' m2 = Some Completed" "state_of s' aid = Some Completed"
    using e2(2) e1(2) m12 aid_ne ex8 by (simp_all add: s' state_of_transitioned)
  have g7: "current_location s' X = Ref B" "current_location s' Y = Ref A"
    using cl1 cl2 neq by (simp_all add: cl')
  have g8: "\<exists>t1 t2. trace s' = trace s @ [Ev_create m1, Ev_create m2] @
                       t1 @ [Ev_complete m1] @ t2 @ [Ev_complete m2, Ev_complete aid]"
    apply (rule exI[of _ "[Ev_write_data m1 From_location_id, Ev_write_patient X] @
       (case sp1 of Some p \<Rightarrow> [Ev_submit p] | None \<Rightarrow> []) @ [Ev_write_data m1 Move_datetime]"])
    apply (rule exI[of _ "[Ev_write_data m2 From_location_id, Ev_write_patient Y] @
       (case sp2 of Some p \<Rightarrow> [Ev_submit p] | None \<Rightarrow> []) @ [Ev_write_data m2 Move_datetime]"])
    using bd[of Move_datetime] m12
    apply (simp add: tr' e2(6) e1(6) tr6 bpat bpar data_of_def b6)
    done
  show ?thesis
    using g1 g2 g3 g4 g5 g6 g7 g8
    unfolding m2_def m1_def sp1_def sp2_def get_by_patient_id_No_check
    by simp
qed

lemmas swap_defs = swap_beds_complete_def first_patient_def current_location_def

theorem swap_beds_complete_swaps_witness:
  "\<exists>s'. swap_beds_complete (activity_complete 1) hospital 6 = Return True s' \<and>
        current_location hospital 1 = Ref 2 \<and> current_location hospital 2 = Ref 3 \<and>
        current_location s' 1 = Ref 3 \<and> current_location s' 2 = Ref 2 \<and>
        parent_of s' 12 = Some 1 \<and> parent_of s' 13 = Some 3 \<and>
        creator_of s' 12 = Some 6 \<and> creator_of s' 13 = Some 6 \<and>
        state_of s' 12 = Some Completed \<and> state_of s' 13 = Some Completed \<and>
        state_of s' 6 = Some Completed"
proof -
  define s' where "s' = store_of (swap_beds_complete (activity_complete 1) hospital 6)"
  have r: "swap_beds_complete (activity_complete (Suc 0)) hospital 6 = Return True s'"
    unfolding s'_def by (simp add: swap_defs move_defs store_defs)
  have l: "data_of hospital 6 Location1_id = Ref 2" "data_of hospital 6 Location2_id = Ref 3"
    by (simp_all add: store_defs)
  have loc: "browse (locations hospital) 2 = Some (hospital_locations ! 1)"
            "browse (locations hospital) 3 = Some (hospital_locations ! 2)"
    by (simp_all add: hospital_def browse_def hospital_locations_def)
  have occ: "patient_ids (hospital_locations ! 1) = 1 # []" "patient_ids (hospital_locations ! 2) = 2 # []"
    by (simp_all add: hospital_locations_def)
  have len: "Suc (length (activities hospital)) = 12" "Suc (Suc (length (activities hospital))) = 13"
    by (simp_all add: hospital_def)
  have sp: "get_by_patient_id hospital (Ref 1) No_check = Return (Some 1) hospital"
           "get_by_patient_id hospital (Ref 2) No_check = Return (Some 3) hospital"
    by (simp_all add: store_defs)
  have before: "current_location hospital 1 = Ref 2" "current_location hospital 2 = Ref 3"
    by (simp_all add: swap_defs store_defs)
  have "(1::nat) \<noteq> 2" by simp
  from swap_beds_complete_swaps[OF r l loc(1) occ(1) loc(2) occ(2) this]
  show ?thesis
    using r before unfolding len sp by auto
qed

subsection \<open>Discharge: complete\<close>

lemma activity_complete_spell:
  "model_of s m = Some Spell \<Longrightarrow> activity_complete (Suc n) s m = base_complete s m"
  by (auto simp: model_of_def split: option.splits)

lemma write_activity_Some:
  "browse (activities s) i \<noteq> None \<Longrightarrow>
   write_activity s (Some i) f =
     Return True (s\<lparr>activities := write_rec (activities s) i f, trace := trace s @ [Ev_write_activity i]\<rparr>)"
  by (auto simp: write_activity_def split: option.splits)

lemma write_activity_Some_Return:
  "write_activity s (Some i) f = Return r s' \<Longrightarrow> browse (activities s) i \<noteq> None"
  by (auto simp: write_activity_def split: option.splits)

lemma current_location_activities [simp]:
  "current_location (s\<lparr>activities := xs, trace := tr\<rparr>) = current_location s"
  by (simp add: current_location_def fun_eq_iff)

lemma current_location_transitioned [simp]:
  "current_location (transitioned s i st ev) = current_location s"
  by (simp add: current_location_def fun_eq_iff)

lemma current_location_created [simp]:
  "current_location (created m s va vs) = current_location s"
  by (simp add: current_location_def fun_eq_iff)

lemma current_location_submitted [simp]:
  "current_location (submitted s i vs) = current_location s"
  by (simp add: current_location_def fun_eq_iff)

lemma data_of_created: "data_of (created m s va vs) j f =
  (if j = Suc (length (activities s)) then (case map_of vs f of None \<Rightarrow> Unset | Some v \<Rightarrow> v) else data_of s j f)"
  by (simp add: data_of_def browse_created)

lemma parent_of_created: "parent_of (created m s va vs) j =
  (if j = Suc (length (activities s)) then fst va else parent_of s j)"
  by (simp add: parent_of_def browse_created)

lemma creator_of_created: "creator_of (created m s va vs) j =
  (if j = Suc (length (activities s)) then snd va else creator_of s j)"
  by (simp add: creator_of_def browse_created)

lemma model_of_created: "model_of (created m s va vs) j =
  (if j = Suc (length (activities s)) then Some m else model_of s j)"
  by (simp add: model_of_def browse_created)

lemma state_of_created: "state_of (created m s va vs) j =
  (if j = Suc (length (activities s)) then Some Draft else state_of s j)"
  by (simp add: state_of_def browse_created)

lemma terminated_of_created: "terminated_of (created m s va vs) j =
  (if j = Suc (length (activities s)) then None else terminated_of s j)"
  by (simp add: terminated_of_def browse_created)


lemma observe_Some:
  "model_of s j = Some m \<Longrightarrow> 0 < j \<and> j \<le> length (activities s) \<and> browse (activities s) j \<noteq> None"
  "parent_of s j = Some p \<Longrightarrow> 0 < j \<and> j \<le> length (activities s) \<and> browse (activities s) j \<noteq> None"
  "state_of s j = Some st \<Longrightarrow> 0 < j \<and> j \<le> length (activities s) \<and> browse (activities s) j \<noteq> None"
  by (auto simp: model_of_def parent_of_def state_of_def split: option.splits dest: browse_SomeD)

lemma pos_default_location_cong:
  "data_of s' p Pos_id = data_of s p Pos_id \<Longrightarrow> poss s' = poss s \<Longrightarrow>
   pos_default_location s' (Some p) = Return v s' \<longleftrightarrow> pos_default_location s (Some p) = Return v s"
  by (auto simp: pos_default_location_def split: val.splits option.splits)

text \<open>
  Claim C7. Let a discharge be parented under a spell. When its completion returns, the
  base completion of the discharge was the first call; then a movement was created under
  the spell, with the discharge as creator, for the discharge's patient, to the first
  location whose code is \<^verbatim>\<open>GDL0987654321\<close> or, when there is none, to the
  \<^verbatim>\<open>location_id\<close> of the point of service that the spell's \<^verbatim>\<open>pos_id\<close> names
  (the spell takes its \<^verbatim>\<open>pos_id\<close> from the admission), with the discharge date as
  \<^verbatim>\<open>move_datetime\<close> (a movement created without one gets the current time when it
  completes); then the movement and the spell were completed, in that order. The spell's
  \<^verbatim>\<open>date_terminated\<close> is the discharge date when one was provided, written after the
  spell's completion, and otherwise stays the date its completion stamped.
\<close>

theorem discharge_complete_effect:
  assumes run: "discharge_complete (activity_complete (Suc n)) s aid = Return r s'"
      and par: "parent_of s aid = Some sp"
      and spm: "model_of s sp = Some Spell"
  shows "state_of s' aid = Some Completed \<and>
         model_of s' (Suc (length (activities s))) = Some Patient_move \<and>
         parent_of s' (Suc (length (activities s))) = Some sp \<and>
         creator_of s' (Suc (length (activities s))) = Some aid \<and>
         data_of s' (Suc (length (activities s))) Patient_id = data_of s aid Patient_id \<and>
         (\<forall>l ls. search (\<lambda>l. location_code l = ''GDL0987654321'') (locations s) = l # ls \<longrightarrow>
            data_of s' (Suc (length (activities s))) Location_id = Ref l) \<and>
         (search (\<lambda>l. location_code l = ''GDL0987654321'') (locations s) = [] \<longrightarrow>
            (\<exists>q po. data_of s sp Pos_id = Ref q \<and> browse (poss s) q = Some po \<and>
                    data_of s' (Suc (length (activities s))) Location_id = pos_location_id po)) \<and>
         data_of s' (Suc (length (activities s))) Move_datetime =
           (if truthy (data_of s aid Discharge_date) then data_of s aid Discharge_date
            else Datetime (now s)) \<and>
         state_of s' (Suc (length (activities s))) = Some Completed \<and>
         state_of s' sp = Some Completed \<and>
         terminated_of s' sp =
           (if truthy (data_of s aid Discharge_date) then datetime_of (data_of s aid Discharge_date)
            else Some (now s)) \<and>
         (\<exists>t. trace s' = trace s @ [Ev_complete aid, Ev_create (Suc (length (activities s)))] @ t @
                  [Ev_complete (Suc (length (activities s))), Ev_complete sp] @
                  (if truthy (data_of s aid Discharge_date) then [Ev_write_activity sp] else []))"
proof -
  define m where "m = Suc (length (activities s))"
  define d where "d = data_of s aid Discharge_date"
  define pat where "pat = data_of s aid Patient_id"
  define codes where "codes = search (\<lambda>l. location_code l = ''GDL0987654321'') (locations s)"
  \<comment> \<open>base completion of the discharge\<close>
  from run obtain r1 s1 where bc1: "base_complete s aid = Return r1 s1"
    by (cases "base_complete s aid") (auto simp: discharge_complete_def)
  then have s1: "s1 = transitioned s aid Completed (Ev_complete aid)"
    and ex_aid: "browse (activities s) aid \<noteq> None" and r1: "r1"
    by (auto simp: base_complete_Return)
  have o1: "data_of s1 = data_of s" "parent_of s1 = parent_of s" "model_of s1 = model_of s"
           "locations s1 = locations s" "poss s1 = poss s" "now s1 = now s"
           "length (activities s1) = length (activities s)"
    by (auto simp: s1 fun_eq_iff data_of_transitioned parent_of_transitioned model_of_transitioned)
  \<comment> \<open>the discharge location\<close>
  define lk where "lk = (case search (\<lambda>l. location_code l = ''GDL0987654321'') (locations s1) of
                            l # _ \<Rightarrow> Return (Ref l) s1
                          | [] \<Rightarrow> pos_default_location s1 (parent_of s1 aid))"
  from run bc1 obtain loc s2 where lk: "lk = Return loc s2"
    by (cases lk) (auto simp: discharge_complete_def Let_def lk_def simp del: activity_complete.simps)
  have s2: "s2 = s1"
    using lk by (auto simp: lk_def pos_default_location_def split: list.splits val.splits option.splits)
  \<comment> \<open>the movement\<close>
  define vs where "vs = [(Patient_id, pat), (Location_id, loc), (Move_datetime, d)]"
  define s3 where "s3 = created Patient_move s1 (Some sp, Some aid) vs"
  have cr: "create_activity Patient_move s1 (Some sp, Some aid) vs = Return m s3"
    by (simp add: create_activity_def s3_def m_def o1)
  have eq: "discharge_complete (activity_complete (Suc n)) s aid =
     (case activity_complete (Suc n) s3 m of
        Raise e s4 \<Rightarrow> Raise e s4
      | Return _ s4 \<Rightarrow>
     (case (case parent_of s4 aid of
              None \<Rightarrow> Raise Missing_record s4
            | Some parent \<Rightarrow> activity_complete (Suc n) s4 parent) of
        Raise e s5 \<Rightarrow> Raise e s5
      | Return _ s5 \<Rightarrow>
     (case (if truthy (data_of s5 aid Discharge_date)
            then write_activity s5 (parent_of s5 aid)
                   (\<lambda>a. a\<lparr>date_terminated := datetime_of (data_of s5 aid Discharge_date)\<rparr>)
            else Return True s5) of
        Raise e s6 \<Rightarrow> Raise e s6
      | Return _ s6 \<Rightarrow> Return r1 s6)))"
    using cr
    by (simp add: discharge_complete_def Let_def bc1 lk[unfolded lk_def s2]
          o1(1,2) par vs_def pat_def d_def del: activity_complete.simps)
  have lt: "aid \<noteq> m" "sp \<noteq> m"
    using observe_Some(2)[OF par] observe_Some(1)[OF spm] by (auto simp: m_def)
  have mo3: "model_of s3 m = Some Patient_move"
    by (simp add: s3_def model_of_created m_def o1)
  from run eq obtain x4 s4 where c4: "activity_complete (Suc n) s3 m = Return x4 s4"
    by (cases "activity_complete (Suc n) s3 m") auto
  then have r4: "patient_move_complete s3 m = Return x4 s4"
    by (simp only: activity_complete_move[OF mo3])
  have b3: "browse (activities s3) m = Some (new_row Patient_move (Some sp, Some aid) vs)"
    by (simp add: s3_def browse_created m_def o1)
  from patient_move_complete_effect[OF r4] obtain a where
    a: "browse (activities s3) m = Some a"
    and tl: "truthy (data_ref a Location_id)"
    and ea: "\<forall>j f. data_of s4 j f =
        (if j = m \<and> f = From_location_id then last_location s3 (data_ref a Patient_id)
         else if j = m \<and> f = Move_datetime \<and> \<not> truthy (data_ref a Move_datetime) then Datetime (now s3)
         else if parent_id a = Some j \<and> f = Location_id then data_ref a Location_id
         else data_of s3 j f)"
      "\<forall>j. state_of s4 j = (if j = m then Some Completed else state_of s3 j)"
      "\<forall>j. terminated_of s4 j = (if j = m then Some (now s3) else terminated_of s3 j)"
      "parent_of s4 = parent_of s3" "creator_of s4 = creator_of s3" "model_of s4 = model_of s3"
      "trace s4 = trace s3 @ [Ev_write_data m From_location_id] @
       (case data_ref a Patient_id of Ref p \<Rightarrow> [Ev_write_patient p] | _ \<Rightarrow> []) @
       (case parent_id a of Some p \<Rightarrow> [Ev_submit p] | None \<Rightarrow> []) @
       (if \<not> truthy (data_ref a Move_datetime) then [Ev_write_data m Move_datetime] else []) @
       [Ev_complete m]"
      "now s4 = now s3"
    by blast
  have a_eq: "a = new_row Patient_move (Some sp, Some aid) vs"
    using a b3 by simp
  have tloc: "truthy loc"
    using tl by (simp add: a_eq vs_def)
  have a_f: "data_ref a Patient_id = pat" "data_ref a Location_id = loc" "data_ref a Move_datetime = d"
            "parent_id a = Some sp"
    by (simp_all add: a_eq vs_def)
  have n3: "now s3 = now s"
    by (simp add: s3_def o1)
  have e4:
    "\<forall>j f. data_of s4 j f =
        (if j = m \<and> f = From_location_id then last_location s3 pat
         else if j = m \<and> f = Move_datetime \<and> \<not> truthy d then Datetime (now s)
         else if sp = j \<and> f = Location_id then loc
         else data_of s3 j f)"
    "\<forall>j. state_of s4 j = (if j = m then Some Completed else state_of s3 j)"
    "\<forall>j. terminated_of s4 j = (if j = m then Some (now s) else terminated_of s3 j)"
    "parent_of s4 = parent_of s3" "creator_of s4 = creator_of s3" "model_of s4 = model_of s3"
    "trace s4 = trace s3 @ [Ev_write_data m From_location_id] @
       (case pat of Ref p \<Rightarrow> [Ev_write_patient p] | _ \<Rightarrow> []) @ [Ev_submit sp] @
       (if \<not> truthy d then [Ev_write_data m Move_datetime] else []) @ [Ev_complete m]"
    "now s4 = now s"
    using ea unfolding a_f n3 by simp_all
  have p4: "parent_of s4 aid = Some sp"
    using lt by (simp add: e4(4) s3_def parent_of_created o1 par m_def)
  have mo4: "model_of s4 sp = Some Spell"
    using lt by (simp add: e4(6) s3_def model_of_created o1 spm m_def)
  from run eq c4 p4 obtain x5 s5 where c5: "activity_complete (Suc n) s4 sp = Return x5 s5"
    by (cases "activity_complete (Suc n) s4 sp") (auto simp del: activity_complete.simps)
  then have bc5: "base_complete s4 sp = Return x5 s5"
    by (simp only: activity_complete_spell[OF mo4])
  then have s5: "s5 = transitioned s4 sp Completed (Ev_complete sp)"
    and ex_sp: "browse (activities s4) sp \<noteq> None"
    and nt_sp: "state_of s4 sp \<noteq> Some Completed"
    by (auto simp: base_complete_Return state_of_def terminal_def)
  have st4_aid: "state_of s4 aid = Some Completed"
    using lt ex_aid by (simp add: e4(2) s3_def state_of_created o1(7) m_def s1 state_of_transitioned)
  have neq: "sp \<noteq> aid"
    using nt_sp st4_aid by auto
  have d5: "data_of s5 aid Discharge_date = d"
    using lt neq by (simp add: s5 data_of_transitioned e4(1) s3_def data_of_created o1 m_def d_def)
  have p5: "parent_of s5 aid = Some sp"
    by (simp add: s5 parent_of_transitioned p4)
  have ex5: "browse (activities s5) sp \<noteq> None"
    using ex_sp by (simp add: s5 browse_transitioned)
  define s6 where "s6 = (if truthy d
       then s5\<lparr>activities := write_rec (activities s5) sp (\<lambda>a. a\<lparr>date_terminated := datetime_of d\<rparr>),
               trace := trace s5 @ [Ev_write_activity sp]\<rparr>
       else s5)"
  have fin: "s' = s6"
    using run eq c4 c5 p4
    by (auto simp: d5 p5 write_activity_Some[OF ex5] s6_def simp del: activity_complete.simps)
  have b6: "browse (activities s6) j =
      (if j = sp \<and> truthy d then map_option (\<lambda>a. a\<lparr>date_terminated := datetime_of d\<rparr>) (browse (activities s5) sp)
       else browse (activities s5) j)" for j
    by (simp add: s6_def browse_write_rec)
  have o6: "data_of s6 = data_of s5" "state_of s6 = state_of s5" "parent_of s6 = parent_of s5"
           "creator_of s6 = creator_of s5" "model_of s6 = model_of s5"
  proof -
    show "data_of s6 = data_of s5"
      by (rule ext, rule ext, case_tac "browse (activities s5) sp") (auto simp: data_of_def b6)
    show "state_of s6 = state_of s5"
      by (rule ext, case_tac "browse (activities s5) sp") (auto simp: state_of_def b6)
    show "parent_of s6 = parent_of s5"
      by (rule ext, case_tac "browse (activities s5) sp") (auto simp: parent_of_def b6)
    show "creator_of s6 = creator_of s5"
      by (rule ext, case_tac "browse (activities s5) sp") (auto simp: creator_of_def b6)
    show "model_of s6 = model_of s5"
      by (rule ext, case_tac "browse (activities s5) sp") (auto simp: model_of_def b6)
  qed
  have t6: "terminated_of s6 sp = (if truthy d then datetime_of d else Some (now s))"
    using ex_sp ex5
    by (auto simp: terminated_of_def b6 s5 browse_transitioned e4(8) terminal_def split: option.splits)
  have tr6: "trace s6 = trace s @ [Ev_complete aid, Ev_create m] @
       ([Ev_write_data m From_location_id] @
        (case pat of Ref p \<Rightarrow> [Ev_write_patient p] | _ \<Rightarrow> []) @ [Ev_submit sp] @
        (if \<not> truthy d then [Ev_write_data m Move_datetime] else [])) @
       [Ev_complete m, Ev_complete sp] @ (if truthy d then [Ev_write_activity sp] else [])"
    by (simp add: s6_def s5 e4(7) s3_def s1 m_def)
  have g_loc: "data_of s6 m Location_id = loc"
    using lt by (simp add: o6 s5 data_of_transitioned e4(1) s3_def data_of_created o1 m_def vs_def)
  have lk1: "\<forall>l ls. codes = l # ls \<longrightarrow> loc = Ref l"
    using lk by (auto simp: lk_def codes_def o1)
  have lk2: "codes = [] \<longrightarrow>
      (\<exists>q po. data_of s sp Pos_id = Ref q \<and> browse (poss s) q = Some po \<and> loc = pos_location_id po)"
  proof
    assume "codes = []"
    then have "pos_default_location s1 (Some sp) = Return loc s1"
      using lk s2 by (simp add: lk_def codes_def o1 par)
    then have "pos_default_location s (Some sp) = Return loc s"
      by (subst (asm) pos_default_location_cong[of s1 sp s]) (simp_all add: o1)
    then show "\<exists>q po. data_of s sp Pos_id = Ref q \<and> browse (poss s) q = Some po \<and> loc = pos_location_id po"
      using tloc by (auto simp: pos_default_location_def split: val.splits option.splits)
  qed
  have "state_of s6 aid = Some Completed"
    using neq st4_aid by (simp add: o6 s5 state_of_transitioned)
  moreover have "model_of s6 m = Some Patient_move"
    by (simp add: o6 s5 model_of_transitioned e4(6) mo3)
  moreover have "parent_of s6 m = Some sp"
    by (simp add: o6 s5 parent_of_transitioned e4(4) s3_def parent_of_created o1 m_def)
  moreover have "creator_of s6 m = Some aid"
    by (simp add: o6 s5 creator_of_transitioned e4(5) s3_def creator_of_created o1 m_def)
  moreover have "data_of s6 m Patient_id = pat"
    using lt by (simp add: o6 s5 data_of_transitioned e4(1) s3_def data_of_created o1 m_def vs_def)
  moreover have "data_of s6 m Move_datetime = (if truthy d then d else Datetime (now s))"
    using lt by (simp add: o6 s5 data_of_transitioned e4(1) s3_def data_of_created o1 m_def vs_def)
  moreover have "state_of s6 m = Some Completed"
    using lt by (simp add: o6 s5 state_of_transitioned e4(2))
  moreover have "state_of s6 sp = Some Completed"
    using ex_sp by (simp add: o6 s5 state_of_transitioned)
  moreover have "\<exists>t. trace s6 = trace s @ [Ev_complete aid, Ev_create m] @ t @
                  [Ev_complete m, Ev_complete sp] @ (if truthy d then [Ev_write_activity sp] else [])"
    using tr6 by blast
  ultimately show ?thesis
    using g_loc lk1 lk2 t6
    unfolding fin m_def[symmetric] d_def[symmetric] pat_def[symmetric] codes_def[symmetric]
    by simp
qed

lemmas discharge_defs = discharge_complete_def pos_default_location_def datetime_of_def terminated_of_def

theorem discharge_complete_effect_witness:
  "\<exists>s' s''. discharge_complete (activity_complete 1) hospital 7 = Return True s' \<and>
        state_of s' 7 = Some Completed \<and>
        data_of s' 12 Location_id = Ref 7 \<and> data_of s' 12 Move_datetime = Datetime 50 \<and>
        state_of s' 12 = Some Completed \<and> state_of s' 1 = Some Completed \<and>
        terminated_of s' 1 = Some 50 \<and>
        discharge_complete (activity_complete 1)
          ((submitted hospital 7 [(Discharge_date, Unset)])
             \<lparr>locations := butlast hospital_locations, poss := [\<lparr>pos_location_id = Ref 5\<rparr>]\<rparr>) 7
          = Return True s'' \<and>
        data_of s'' 12 Location_id = Ref 5 \<and> data_of s'' 12 Move_datetime = Datetime 100 \<and>
        state_of s'' 1 = Some Completed \<and> terminated_of s'' 1 = Some 100"
proof -
  define h2 where "h2 = (submitted hospital 7 [(Discharge_date, Unset)])
             \<lparr>locations := butlast hospital_locations, poss := [\<lparr>pos_location_id = Ref 5\<rparr>]\<rparr>"
  define s' where "s' = store_of (discharge_complete (activity_complete 1) hospital 7)"
  define s'' where "s'' = store_of (discharge_complete (activity_complete 1) h2 7)"
  have r1: "discharge_complete (activity_complete (Suc 0)) hospital 7 = Return True s'"
    unfolding s'_def by (simp add: discharge_defs move_defs store_defs)
  have r2: "discharge_complete (activity_complete (Suc 0)) h2 7 = Return True s''"
    unfolding s''_def h2_def by (simp add: discharge_defs move_defs store_defs)
  have p1: "parent_of hospital 7 = Some 1" "model_of hospital 1 = Some Spell"
       "parent_of h2 7 = Some 1" "model_of h2 1 = Some Spell"
    unfolding h2_def by (simp_all add: move_defs store_defs)
  have c1: "search (\<lambda>l. location_code l = ''GDL0987654321'') (locations hospital) = 7 # []"
       "search (\<lambda>l. location_code l = ''GDL0987654321'') (locations h2) = []"
    unfolding h2_def by (simp_all add: store_defs)
  have f1: "data_of hospital 7 Discharge_date = Datetime 50" "data_of h2 7 Discharge_date = Unset"
       "now hospital = 100" "now h2 = 100" "length (activities hospital) = 11" "length (activities h2) = 11"
    unfolding h2_def by (simp_all add: discharge_defs store_defs)
  have f2: "data_of h2 1 Pos_id = Ref 1" "browse (poss h2) 1 = Some \<lparr>pos_location_id = Ref 5\<rparr>"
    unfolding h2_def by (simp_all add: store_defs)
  note t1 = discharge_complete_effect[OF r1 p1(1,2), unfolded c1 f1]
  note t2 = discharge_complete_effect[OF r2 p1(3,4), unfolded c1 f1]
  from t1 have "state_of s' 7 = Some Completed \<and>
        data_of s' 12 Location_id = Ref 7 \<and> data_of s' 12 Move_datetime = Datetime 50 \<and>
        state_of s' 12 = Some Completed \<and> state_of s' 1 = Some Completed \<and>
        terminated_of s' 1 = Some 50"
    by (simp add: datetime_of_def)
  moreover from t2 f2 have "data_of s'' 12 Location_id = Ref 5 \<and> data_of s'' 12 Move_datetime = Datetime 100 \<and>
        state_of s'' 1 = Some Completed \<and> terminated_of s'' 1 = Some 100"
    by auto
  ultimately show ?thesis
    using r1 r2 unfolding h2_def by auto
qed

subsection \<open>Discharge: cancel\<close>

lemma admission_get_last_store: "admission_get_last s p x = Return r s' \<Longrightarrow> s' = s"
  by (auto simp: admission_get_last_def Let_def split: if_splits)

lemma activity_submit_move_location:
  "model_of s m = Some Patient_move \<Longrightarrow>
   activity_submit s m [(Location_id, v)] = Return True (submitted s m [(Location_id, v)])"
  by (auto simp: activity_submit_def model_of_def patient_move_submit_def base_submit_def
        split: option.splits)

lemma model_of_submitted: "model_of (submitted s i vs) = model_of s"
  by (rule ext, case_tac "browse (activities s) x") (auto simp: model_of_def browse_submitted)

lemma creator_of_submitted: "creator_of (submitted s i vs) = creator_of s"
  by (rule ext, case_tac "browse (activities s) x") (auto simp: creator_of_def browse_submitted)

lemma terminated_of_submitted: "terminated_of (submitted s i vs) = terminated_of s"
  by (rule ext, case_tac "browse (activities s) x") (auto simp: terminated_of_def browse_submitted)

text \<open>
  Claim C6. Let a discharge be parented under a spell and record the location the
  patient was discharged from. When its cancellation returns, the discharge is cancelled,
  the spell is back in state started with no termination date, and a movement of the
  patient has been created under the spell and completed. If the recorded location is an
  available bed, the movement went to that bed and its completion was the last call.
  Otherwise the movement was first submitted with a new destination, the recorded
  location itself when it is a ward and else its closest ward ancestor, then completed
  there, and the policy trigger for that ward was the last call. Either way the
  patient's current location is the movement's destination.
\<close>

theorem discharge_cancel_reopens:
  assumes run: "discharge_cancel (activity_complete (Suc n)) s aid = Return r s'"
      and dm: "model_of s aid = Some Discharge"
      and par: "parent_of s aid = Some sp"
      and spm: "model_of s sp = Some Spell"
      and loc: "data_of s aid Location_id = Ref l"
      and bl: "browse (locations s) l = Some location"
  shows "state_of s' aid = Some Cancelled \<and>
         state_of s' sp = Some Started \<and> terminated_of s' sp = None \<and>
         model_of s' (Suc (length (activities s))) = Some Patient_move \<and>
         parent_of s' (Suc (length (activities s))) = Some sp \<and>
         creator_of s' (Suc (length (activities s))) = Some aid \<and>
         data_of s' (Suc (length (activities s))) Patient_id = data_of s aid Patient_id \<and>
         state_of s' (Suc (length (activities s))) = Some Completed \<and>
         (\<forall>p. data_of s aid Patient_id = Ref p \<longrightarrow>
              current_location s' p = data_of s' (Suc (length (activities s))) Location_id) \<and>
         (usage location = Bed \<and> is_available location \<longrightarrow>
            data_of s' (Suc (length (activities s))) Location_id = Ref l \<and>
            (\<exists>t. trace s' = trace s @ [Ev_cancel aid, Ev_write_activity sp,
                                       Ev_create (Suc (length (activities s)))] @ t @
                                      [Ev_complete (Suc (length (activities s)))])) \<and>
         (\<not> (usage location = Bed \<and> is_available location) \<longrightarrow>
            (\<exists>ward_id.
               (if usage location = Ward then ward_id = Ref l
                else closest_parent (length (locations s)) (locations s) l Ward = Inr ward_id) \<and>
               data_of s' (Suc (length (activities s))) Location_id = ward_id \<and>
               (\<exists>t. trace s' = trace s @ [Ev_cancel aid, Ev_write_activity sp,
                                          Ev_create (Suc (length (activities s))),
                                          Ev_submit (Suc (length (activities s)))] @ t @
                                         [Ev_complete (Suc (length (activities s))),
                                          Ev_trigger_policy aid ward_id])))"
proof -
  define m where "m = Suc (length (activities s))"
  define d where "d = data_of s aid Discharge_date"
  define pat where "pat = data_of s aid Patient_id"
  from dm obtain a where a: "browse (activities s) aid = Some a"
    by (auto simp: model_of_def)
  have neq: "sp \<noteq> aid" using dm spm by auto
  have lt: "aid \<noteq> m" "sp \<noteq> m"
    using observe_Some(1)[OF dm] observe_Some(1)[OF spm] by (auto simp: m_def)
  have apat: "data_ref a Patient_id = pat"
    using a by (simp add: pat_def data_of_def)
  \<comment> \<open>the check\<close>
  from run a obtain x1 s1 where g: "admission_get_last s pat Raise_if_found = Return x1 s1"
    by (cases "admission_get_last s pat Raise_if_found") (auto simp: discharge_cancel_def apat)
  have s1: "s1 = s" using g by (rule admission_get_last_store)
  \<comment> \<open>base cancel\<close>
  from run a g obtain r2 s2 where bc: "base_cancel s aid = Return r2 s2"
    by (cases "base_cancel s aid") (auto simp: discharge_cancel_def apat s1)
  then have s2: "s2 = transitioned s aid Cancelled (Ev_cancel aid)"
    by (auto simp: base_cancel_Return)
  have o2: "data_of s2 = data_of s" "parent_of s2 = parent_of s" "model_of s2 = model_of s"
           "creator_of s2 = creator_of s"
           "locations s2 = locations s" "now s2 = now s"
           "length (activities s2) = length (activities s)"
    by (auto simp: s2 fun_eq_iff data_of_transitioned parent_of_transitioned model_of_transitioned
          creator_of_transitioned)
  have st2: "state_of s2 aid = Some Cancelled"
    using a by (simp add: s2 state_of_transitioned)
  have ex2: "browse (activities s2) sp \<noteq> None"
    using spm by (simp add: o2(3)[symmetric]) (auto simp: model_of_def)
  \<comment> \<open>reopening the spell\<close>
  define s3 where "s3 = s2\<lparr>activities := write_rec (activities s2) sp
                                  (\<lambda>a. a\<lparr>state := Started, date_terminated := None\<rparr>),
                           trace := trace s2 @ [Ev_write_activity sp]\<rparr>"
  have w3: "write_activity s2 (parent_of s2 aid) (\<lambda>a. a\<lparr>state := Started, date_terminated := None\<rparr>)
              = Return True s3"
    by (simp add: o2 par write_activity_Some[OF ex2] s3_def)
  have b3: "browse (activities s3) j =
      (if j = sp then map_option (\<lambda>a. a\<lparr>state := Started, date_terminated := None\<rparr>) (browse (activities s2) sp)
       else browse (activities s2) j)" for j
    by (simp add: s3_def browse_write_rec)
  have o3: "data_of s3 = data_of s" "parent_of s3 = parent_of s" "model_of s3 = model_of s"
           "creator_of s3 = creator_of s"
  proof -
    show "data_of s3 = data_of s" unfolding o2(1)[symmetric]
      by (rule ext, rule ext, case_tac "browse (activities s2) sp") (auto simp: data_of_def b3)
    show "parent_of s3 = parent_of s" unfolding o2(2)[symmetric]
      by (rule ext, case_tac "browse (activities s2) sp") (auto simp: parent_of_def b3)
    show "model_of s3 = model_of s" unfolding o2(3)[symmetric]
      by (rule ext, case_tac "browse (activities s2) sp") (auto simp: model_of_def b3)
    show "creator_of s3 = creator_of s" unfolding o2(4)[symmetric]
      by (rule ext, case_tac "browse (activities s2) sp") (auto simp: creator_of_def b3)
  qed
  have p3: "locations s3 = locations s" "now s3 = now s" "length (activities s3) = length (activities s)"
           "trace s3 = trace s @ [Ev_cancel aid, Ev_write_activity sp]"
    by (simp_all add: s3_def o2 length_write_rec) (simp add: s2)
  have st3: "state_of s3 aid = Some Cancelled" "state_of s3 sp = Some Started" "terminated_of s3 sp = None"
    using neq st2 ex2 by (auto simp: state_of_def terminated_of_def b3)
  \<comment> \<open>the movement\<close>
  define vs where "vs = [(Patient_id, pat), (Location_id, Ref l), (Move_datetime, d)]"
  define s4 where "s4 = created Patient_move s3 (Some sp, Some aid) vs"
  have cr: "create_activity Patient_move s3 (parent_of s3 aid, Some aid)
              [(Patient_id, data_of s3 aid Patient_id), (Location_id, data_of s3 aid Location_id),
               (Move_datetime, data_of s3 aid Discharge_date)] = Return m s4"
    by (simp add: create_activity_def s4_def m_def p3 o3 par vs_def pat_def loc d_def)
  have bl4: "browse_location s4 (Ref l) = Return (Some location) s4"
    by (simp add: s4_def p3 browse_location_def bl)
  have l4: "data_of s4 aid Location_id = Ref l"
    using lt by (simp add: s4_def data_of_created p3 o3 loc m_def)
  have b4: "browse (activities s4) m = Some (new_row Patient_move (Some sp, Some aid) vs)"
    by (simp add: s4_def browse_created m_def p3)
  have o4: "parent_of s4 m = Some sp" "creator_of s4 m = Some aid" "model_of s4 m = Some Patient_move"
           "data_of s4 m Patient_id = pat" "data_of s4 m Location_id = Ref l"
           "state_of s4 aid = Some Cancelled" "state_of s4 sp = Some Started" "terminated_of s4 sp = None"
           "trace s4 = trace s @ [Ev_cancel aid, Ev_write_activity sp, Ev_create m]"
           "locations s4 = locations s"
    using lt st3
    by (simp_all add: s4_def parent_of_created creator_of_created model_of_created data_of_created
          state_of_created terminated_of_created p3 m_def vs_def)
  define direct where "direct = (usage location = Bed \<and> is_available location)"
  define wl where "wl = (if usage location \<noteq> Ward then get_closest_parent_id s4 (Ref l) Ward
                         else Return (Ref l) s4)"
  have eq: "discharge_cancel (activity_complete (Suc n)) s aid =
     (if direct then
            (case activity_complete (Suc n) s4 m of
               Raise e s6 \<Rightarrow> Raise e s6
             | Return _ s6 \<Rightarrow> Return r2 s6)
      else
     (case wl of
        Raise e s6 \<Rightarrow> Raise e s6
      | Return ward_id s6 \<Rightarrow>
     (case activity_submit s6 m [(Location_id, ward_id)] of
        Raise e s7 \<Rightarrow> Raise e s7
      | Return _ s7 \<Rightarrow>
     (case activity_complete (Suc n) s7 m of
        Raise e s8 \<Rightarrow> Raise e s8
      | Return _ s8 \<Rightarrow>
     (case trigger_policy s8 aid ward_id of
        Raise e s9 \<Rightarrow> Raise e s9
      | Return _ s9 \<Rightarrow> Return r2 s9)))))"
    using a
    by (simp add: discharge_cancel_def apat g s1 bc w3 cr Let_def bl4 l4 direct_def wl_def
          del: activity_complete.simps)
  \<comment> \<open>what a completion of the movement in a store \<open>t\<close> does, when \<open>t\<close> agrees with \<open>s4\<close>\<close>
  have fin: "state_of t' aid = Some Cancelled \<and> state_of t' sp = Some Started \<and> terminated_of t' sp = None \<and>
         model_of t' m = Some Patient_move \<and> parent_of t' m = Some sp \<and> creator_of t' m = Some aid \<and>
         data_of t' m Patient_id = pat \<and> state_of t' m = Some Completed \<and>
         data_of t' m Location_id = w \<and>
         (\<forall>p. pat = Ref p \<longrightarrow> current_location t' p = w) \<and>
         (\<exists>u. trace t' = trace t @ u @ [Ev_complete m])"
    if c: "activity_complete (Suc n) t m = Return x t'"
      and t: "parent_of t m = Some sp" "creator_of t m = Some aid" "model_of t m = Some Patient_move"
           "data_of t m Patient_id = pat" "data_of t m Location_id = w"
           "state_of t aid = Some Cancelled" "state_of t sp = Some Started" "terminated_of t sp = None"
    for t t' x w
  proof -
    have rm: "patient_move_complete t m = Return x t'"
      using c by (simp only: activity_complete_move[OF t(3)])
    from patient_move_complete_effect[OF rm] obtain b where
      b: "browse (activities t) m = Some b"
      and e: "\<forall>j f. data_of t' j f =
        (if j = m \<and> f = From_location_id then last_location t (data_ref b Patient_id)
         else if j = m \<and> f = Move_datetime \<and> \<not> truthy (data_ref b Move_datetime) then Datetime (now t)
         else if parent_id b = Some j \<and> f = Location_id then data_ref b Location_id
         else data_of t j f)"
        "\<forall>j. state_of t' j = (if j = m then Some Completed else state_of t j)"
        "\<forall>j. terminated_of t' j = (if j = m then Some (now t) else terminated_of t j)"
        "parent_of t' = parent_of t" "creator_of t' = creator_of t" "model_of t' = model_of t"
        "trace t' = trace t @ [Ev_write_data m From_location_id] @
         (case data_ref b Patient_id of Ref p \<Rightarrow> [Ev_write_patient p] | _ \<Rightarrow> []) @
         (case parent_id b of Some p \<Rightarrow> [Ev_submit p] | None \<Rightarrow> []) @
         (if \<not> truthy (data_ref b Move_datetime) then [Ev_write_data m Move_datetime] else []) @
         [Ev_complete m]"
      by blast
    have bp: "parent_id b = Some sp"
      using b t(1) by (simp add: parent_of_def)
    from patient_move_complete_current_location[OF rm]
    have cl: "\<forall>p. pat = Ref p \<longrightarrow> current_location t' p = w"
      by (simp add: t)
    have "\<exists>u. trace t' = trace t @ u @ [Ev_complete m]"
      using e(7) by (metis append.assoc)
    then show ?thesis
      using e(1-6) t lt bp cl by simp
  qed
  show ?thesis
  proof (cases direct)
    case True
    from run eq True obtain x6 where c6: "activity_complete (Suc n) s4 m = Return x6 s'"
      by (cases "activity_complete (Suc n) s4 m") (auto simp del: activity_complete.simps)
    from fin[OF c6 o4(1,2,3,4,5,6,7,8)] True
    show ?thesis
      unfolding direct_def m_def[symmetric] pat_def[symmetric]
      by (auto simp: o4(9))
  next
    case False
    from run eq False obtain ward_id s6 where wl: "wl = Return ward_id s6"
      by (cases wl) (auto simp del: activity_complete.simps)
    have s6: "s6 = s4"
      using wl by (auto simp: wl_def split: if_splits dest: get_closest_parent_id_store)
    have ward: "(if usage location = Ward then ward_id = Ref l
                else closest_parent (length (locations s)) (locations s) l Ward = Inr ward_id)"
      using wl by (auto simp: wl_def get_closest_parent_id_Ref o4(10) split: if_splits sum.splits)
    define s7 where "s7 = submitted s4 m [(Location_id, ward_id)]"
    have sub: "activity_submit s4 m [(Location_id, ward_id)] = Return True s7"
      by (simp add: activity_submit_move_location[OF o4(3)] s7_def)
    from run eq False wl sub obtain x8 s8 where c8: "activity_complete (Suc n) s7 m = Return x8 s8"
      by (cases "activity_complete (Suc n) s7 m") (auto simp: s6 simp del: activity_complete.simps)
    have s': "s' = s8\<lparr>trace := trace s8 @ [Ev_trigger_policy aid ward_id]\<rparr>"
      using run eq False wl sub c8 by (auto simp: s6 trigger_policy_def simp del: activity_complete.simps)
    have ex4: "browse (activities s4) m \<noteq> None" using b4 by simp
    have o7: "parent_of s7 m = Some sp" "creator_of s7 m = Some aid" "model_of s7 m = Some Patient_move"
           "data_of s7 m Patient_id = pat" "data_of s7 m Location_id = ward_id"
           "state_of s7 aid = Some Cancelled" "state_of s7 sp = Some Started" "terminated_of s7 sp = None"
      using o4 ex4
      by (simp_all add: s7_def parent_of_submitted creator_of_submitted model_of_submitted
            data_of_submitted state_of_submitted terminated_of_submitted)
    have tr7: "trace s7 = trace s @ [Ev_cancel aid, Ev_write_activity sp, Ev_create m, Ev_submit m]"
      by (simp add: s7_def o4(9))
    have obs: "state_of s' = state_of s8" "terminated_of s' = terminated_of s8" "model_of s' = model_of s8"
       "parent_of s' = parent_of s8" "creator_of s' = creator_of s8" "data_of s' = data_of s8"
       "current_location s' = current_location s8"
      by (simp_all add: s' fun_eq_iff state_of_def terminated_of_def model_of_def parent_of_def
            creator_of_def data_of_def current_location_def)
    from fin[OF c8 o7] obtain u where
      f8: "state_of s8 aid = Some Cancelled" "state_of s8 sp = Some Started" "terminated_of s8 sp = None"
         "model_of s8 m = Some Patient_move" "parent_of s8 m = Some sp" "creator_of s8 m = Some aid"
         "data_of s8 m Patient_id = pat" "state_of s8 m = Some Completed"
         "data_of s8 m Location_id = ward_id"
         "\<forall>p. pat = Ref p \<longrightarrow> current_location s8 p = ward_id"
         "trace s8 = trace s7 @ u @ [Ev_complete m]"
      by blast
    have "trace s' = trace s @ [Ev_cancel aid, Ev_write_activity sp, Ev_create m, Ev_submit m] @ u @
                       [Ev_complete m, Ev_trigger_policy aid ward_id]"
      by (simp add: s' f8(11) tr7)
    then have "data_of s' m Location_id = ward_id \<and>
               (\<exists>t. trace s' = trace s @ [Ev_cancel aid, Ev_write_activity sp, Ev_create m, Ev_submit m] @ t @
                       [Ev_complete m, Ev_trigger_policy aid ward_id])"
      using f8(9) by (auto simp: obs)
    with ward f8 False show ?thesis
      unfolding direct_def m_def[symmetric] pat_def[symmetric] obs
      by auto
  qed
qed

lemmas cancel_defs = discharge_cancel_def admission_get_last_def discharge_get_last_def
  completed_with_parent_def last_key_def browse_location_def patient_move_submit_def


theorem discharge_cancel_reopens_witness:
  "\<exists>s' s''. discharge_cancel (activity_complete 1) discharged 5 = Return True s' \<and>
      state_of discharged 5 = Some Completed \<and> state_of discharged 3 = Some Completed \<and>
      state_of s' 5 = Some Cancelled \<and> state_of s' 3 = Some Started \<and> terminated_of s' 3 = None \<and>
      data_of s' 12 Location_id = Ref 4 \<and> state_of s' 12 = Some Completed \<and>
      current_location s' 1 = Ref 4 \<and>
      discharge_cancel (activity_complete 1) discharged 7 = Return True s'' \<and>
      state_of s'' 6 = Some Started \<and> terminated_of s'' 6 = None \<and>
      data_of s'' 12 Location_id = Ref 1 \<and> state_of s'' 12 = Some Completed \<and>
      current_location s'' 2 = Ref 1"
proof -
  define s' where "s' = store_of (discharge_cancel (activity_complete 1) discharged 5)"
  define s'' where "s'' = store_of (discharge_cancel (activity_complete 1) discharged 7)"
  have r1: "discharge_cancel (activity_complete (Suc 0)) discharged 5 = Return True s'"
    unfolding s'_def by (simp add: cancel_defs move_defs store_defs)
  have r2: "discharge_cancel (activity_complete (Suc 0)) discharged 7 = Return True s''"
    unfolding s''_def by (simp add: cancel_defs move_defs store_defs)
  have h1: "model_of discharged 5 = Some Discharge" "parent_of discharged 5 = Some 3"
       "model_of discharged 3 = Some Spell" "data_of discharged 5 Location_id = Ref 4"
       "browse (locations discharged) 4 = Some (hospital_locations ! 3)"
    by (simp_all add: move_defs store_defs)
  have h2: "model_of discharged 7 = Some Discharge" "parent_of discharged 7 = Some 6"
       "model_of discharged 6 = Some Spell" "data_of discharged 7 Location_id = Ref 2"
       "browse (locations discharged) 2 = Some (hospital_locations ! 1)"
    by (simp_all add: move_defs store_defs)
  have f: "usage (hospital_locations ! 3) = Bed" "is_available (hospital_locations ! 3)"
       "usage (hospital_locations ! 1) = Bed" "\<not> is_available (hospital_locations ! 1)"
       "closest_parent (length (locations discharged)) (locations discharged) 2 Ward = Inr (Ref 1)"
       "length (activities discharged) = 11"
       "data_of discharged 5 Patient_id = Ref 1" "data_of discharged 7 Patient_id = Ref 2"
       "state_of discharged 5 = Some Completed" "state_of discharged 3 = Some Completed"
    by (simp_all add: store_defs)
  note t1 = discharge_cancel_reopens[OF r1 h1]
  note t2 = discharge_cancel_reopens[OF r2 h2]
  from t1 f have "state_of s' 5 = Some Cancelled \<and> state_of s' 3 = Some Started \<and> terminated_of s' 3 = None \<and>
      data_of s' 12 Location_id = Ref 4 \<and> state_of s' 12 = Some Completed \<and>
      current_location s' 1 = Ref 4"
    by simp
  moreover from t2 f have "state_of s'' 6 = Some Started \<and> terminated_of s'' 6 = None \<and>
      data_of s'' 12 Location_id = Ref 1 \<and> state_of s'' 12 = Some Completed \<and>
      current_location s'' 2 = Ref 1"
    by auto
  ultimately show ?thesis
    using r1 r2 f(9,10) by auto
qed

text \<open>
  Claim C8 as stated: cancel fails with "already discharged" when another completed
  discharge of the patient exists. Patient 1 of the later hospital has two completed
  discharges, 5 and 2, both under completed spells, so that the discharge-side
  \<^verbatim>\<open>get_last\<close> with \<^verbatim>\<open>exception='True'\<close> raises "already discharged"; yet
  cancelling discharge 5 returns and reopens spell 3. The check cancel makes is the
  admission-side one: for patient 3, admitted again, it raises "already admitted".
\<close>

theorem discharge_cancel_check_counterexample:
  "completed_with_parent discharged Discharge Completed (Ref 1) = [5, 2] \<and>
   discharge_get_last discharged (Ref 1) Raise_if_found = Raise (Already_discharged (Ref 1)) discharged \<and>
   discharge_cancel (activity_complete 1) discharged 5
     = Return True (store_of (discharge_cancel (activity_complete 1) discharged 5)) \<and>
   state_of (store_of (discharge_cancel (activity_complete 1) discharged 5)) 3 = Some Started \<and>
   discharge_cancel (activity_complete 1) discharged 9 = Raise (Active_admission_exists (Ref 3)) discharged"
proof -
  have "completed_with_parent discharged Discharge Completed (Ref 1) = [5, 2]"
    by (simp add: cancel_defs store_defs)
  moreover have "discharge_get_last discharged (Ref 1) Raise_if_found
      = Raise (Already_discharged (Ref 1)) discharged"
    by (simp add: cancel_defs store_defs)
  moreover have "discharge_cancel (activity_complete 1) discharged 5
     = Return True (store_of (discharge_cancel (activity_complete 1) discharged 5))"
    by (simp add: cancel_defs move_defs store_defs)
  moreover have "state_of (store_of (discharge_cancel (activity_complete 1) discharged 5)) 3 = Some Started"
    by (simp add: cancel_defs move_defs store_defs)
  moreover have "discharge_cancel (activity_complete 1) discharged 9
      = Raise (Active_admission_exists (Ref 3)) discharged"
    by (simp add: cancel_defs store_defs)
  ultimately show ?thesis by (intro conjI)
qed

lemma sort_key_Nil_iff: "sort_key k xs = [] \<longleftrightarrow> xs = []"
proof -
  have "length (sort_key k xs) = length xs" by simp
  then show ?thesis by (metis length_0_conv)
qed

lemma completed_with_parent_nonempty:
  "completed_with_parent s m st pat \<noteq> [] \<longleftrightarrow>
     (\<exists>i x p. browse (activities s) i = Some x \<and> data_ref x Patient_id = pat \<and> data_model x = m \<and>
              state x = Completed \<and> parent_id x = Some p \<and> state_of s p = Some st)"
proof -
  let ?P = "\<lambda>a. data_ref a Patient_id = pat \<and> data_model a = m \<and> state a = Completed \<and>
                    (case parent_id a of None \<Rightarrow> False | Some p \<Rightarrow> state_of s p = Some st)"
  have "completed_with_parent s m st pat \<noteq> [] \<longleftrightarrow> search ?P (activities s) \<noteq> []"
    unfolding completed_with_parent_def
    by (simp add: sort_key_Nil_iff)
  also have "\<dots> \<longleftrightarrow> (\<exists>i. i \<in> set (search ?P (activities s)))"
    by (cases "search ?P (activities s)") auto
  also have "\<dots> \<longleftrightarrow> (\<exists>i x p. browse (activities s) i = Some x \<and> data_ref x Patient_id = pat \<and>
              data_model x = m \<and> state x = Completed \<and> parent_id x = Some p \<and> state_of s p = Some st)"
  proof -
    have c: "(case parent_id a of None \<Rightarrow> False | Some p \<Rightarrow> state_of s p = Some st)
              \<longleftrightarrow> (\<exists>p. parent_id a = Some p \<and> state_of s p = Some st)" for a :: activity
      by (cases "parent_id a") auto
    show ?thesis
      unfolding in_search c by blast
  qed
  finally show ?thesis .
qed

text \<open>
  Claim C8, amended. Discharge cancel requires that the patient has no active admission,
  that is no completed admission whose parent spell is started: when there is one,
  cancel raises the admission-side "already admitted" error on the unchanged store, and
  so before any state is reverted.
\<close>

theorem discharge_cancel_active_admission:
  assumes "browse (activities s) aid = Some a"
  shows "((\<exists>i x p. browse (activities s) i = Some x \<and> data_ref x Patient_id = data_ref a Patient_id \<and>
                   data_model x = Admission \<and> state x = Completed \<and>
                   parent_id x = Some p \<and> state_of s p = Some Started) \<longrightarrow>
            discharge_cancel complete s aid = Raise (Active_admission_exists (data_ref a Patient_id)) s) \<and>
         (\<forall>r s'. discharge_cancel complete s aid = Return r s' \<longrightarrow>
            \<not> (\<exists>i x p. browse (activities s) i = Some x \<and> data_ref x Patient_id = data_ref a Patient_id \<and>
                   data_model x = Admission \<and> state x = Completed \<and>
                   parent_id x = Some p \<and> state_of s p = Some Started))"
proof -
  have "completed_with_parent s Admission Started (data_ref a Patient_id) \<noteq> [] \<Longrightarrow>
        discharge_cancel complete s aid = Raise (Active_admission_exists (data_ref a Patient_id)) s"
    using assms by (simp add: discharge_cancel_def admission_get_last_def)
  then show ?thesis
    unfolding completed_with_parent_nonempty[symmetric]
    by (cases "completed_with_parent s Admission Started (data_ref a Patient_id) = []") auto
qed

theorem discharge_cancel_active_admission_witness:
  "discharge_cancel (activity_complete 1) discharged 9 = Raise (Active_admission_exists (Ref 3)) discharged \<and>
   state_of discharged 10 = Some Started \<and>
   discharge_cancel (activity_complete 1) discharged 5
     = Return True (store_of (discharge_cancel (activity_complete 1) discharged 5))"
proof -
  let ?a = "row Discharge Completed (Some 8) 9
           [(Patient_id, Ref 3), (Location_id, Ref 1), (Discharge_date, Datetime 70)]"
  let ?x = "row Admission Completed (Some 10) 10 [(Patient_id, Ref 3), (Location_id, Ref 5), (Pos_id, Ref 1)]"
  have b: "browse (activities discharged) 9 = Some ?a" "browse (activities discharged) 11 = Some ?x"
    by (simp_all add: discharged_def browse_def)
  have st: "state_of discharged 10 = Some Started"
    by (simp add: store_defs)
  have pat: "data_ref ?a Patient_id = Ref 3"
    by (simp add: row_def write_vals_def)
  have "\<exists>i x p. browse (activities discharged) i = Some x \<and> data_ref x Patient_id = data_ref ?a Patient_id \<and>
                   data_model x = Admission \<and> state x = Completed \<and>
                   parent_id x = Some p \<and> state_of discharged p = Some Started"
    by (rule exI[of _ 11], rule exI[of _ ?x], rule exI[of _ 10])
       (simp add: b st, simp add: row_def write_vals_def)
  then have "discharge_cancel (activity_complete 1) discharged 9 = Raise (Active_admission_exists (Ref 3)) discharged"
    using discharge_cancel_active_admission[OF b(1), of "activity_complete 1", THEN conjunct1]
    unfolding pat by (rule rev_mp)
  moreover have "discharge_cancel (activity_complete 1) discharged 5
     = Return True (store_of (discharge_cancel (activity_complete 1) discharged 5))"
    by (simp add: cancel_defs move_defs store_defs)
  ultimately show ?thesis using st by (intro conjI)
qed

subsection \<open>Movement: the chain of source locations\<close>


















end
